theory Spec2Isabelle
  imports Main "HOL-Library.Word"
begin

unbundle bit_operations_syntax

section \<open>Common types of the RPCSEC\_GSS client (nfs\_gss.c)\<close>

text \<open>
  The error numbers the client returns. \<open>NFSERR_EAUTH\<close> is the authentication error,
  \<open>ENEEDAUTH\<close> asks the caller to set the context up again, \<open>EBADRPC\<close> is the decode
  error of the RPC layer, \<open>EACCES\<close> the access error. \<open>EMINOR m\<close> is the value \<open>m\<close> in
  an \<open>int\<close> that holds an error, when \<open>m\<close> is the number of none of the others.
\<close>

datatype errno =
    ENXIO | ENOMEM | EACCES | EINVAL | EPIPE | EINTR | ETIMEDOUT
  | EBADRPC | NFSERR_EAUTH | ENEEDAUTH | EMINOR "32 word"

text \<open>
  Modelled from the spec: the numbers of the errors, from sys/errno.h, which is not
  among the sources (\<open>NFSERR_EAUTH\<close> has the number of \<open>EAUTH\<close>, the name under which
  \<open>nfs_gss_clnt_ctx_set_principal\<close> tests for it). \<open>errno_of_int\<close> reads a 32-bit value
  that was stored into the variable \<open>error\<close>: 0 is no error.
\<close>

definition errno_of_int :: "32 word \<Rightarrow> errno option" where
  "errno_of_int m =
     (if m = 0 then None
      else if m = 4 then Some EINTR
      else if m = 6 then Some ENXIO
      else if m = 12 then Some ENOMEM
      else if m = 13 then Some EACCES
      else if m = 22 then Some EINVAL
      else if m = 32 then Some EPIPE
      else if m = 60 then Some ETIMEDOUT
      else if m = 72 then Some EBADRPC
      else if m = 80 then Some NFSERR_EAUTH
      else if m = 81 then Some ENEEDAUTH
      else Some (EMINOR m))"

text \<open>
  Outcomes that end the kernel rather than return: the \<open>panic\<close> call of
  \<open>nfs_gss_clnt_ctx_unref\<close>, and the machine faults of C (a division by zero, an
  access outside an allocation).
\<close>

datatype fatal = Panic | DivideByZero | OutOfBounds

text \<open>The bits of \<open>gss_clnt_flags\<close>; the field is modelled as the set of bits that are on.\<close>

datatype gss_flag =
    GSS_CTX_COMPLETE | GSS_CTX_INVAL | GSS_CTX_STICKY | GSS_NEEDSEQ
  | GSS_NEEDCTX | GSS_CTX_DESTROY | GSS_CTX_USECOUNT

datatype gssd_flag = GSSD_RESTART | GSSD_LUCID_CONTEXT

datatype rpcsec_proc =
  RPCSEC_GSS_DATA | RPCSEC_GSS_INIT | RPCSEC_GSS_CONTINUE_INIT | RPCSEC_GSS_DESTROY

datatype rpcsec_svc =
  RPCSEC_GSS_SVC_NONE | RPCSEC_GSS_SVC_INTEGRITY | RPCSEC_GSS_SVC_PRIVACY | RPCSEC_GSS_SVC_0

type_synonym byte = "8 word"
type_synonym u32 = "32 word"

definition GSS_S_COMPLETE :: u32 where
  "GSS_S_COMPLETE = 0"

definition GSS_S_CONTINUE_NEEDED :: u32 where
  "GSS_S_CONTINUE_NEEDED = 1"

definition KRB5_MAX_MIC_SIZE :: nat where
  "KRB5_MAX_MIC_SIZE = 128"

text \<open>
  A credential, as far as the client looks at it: the audit session id that
  \<open>nfs_gss_clnt_ctx_cred_match\<close> compares, and the user id.
\<close>

record kauth_cred =
  cr_asid :: int
  cr_uid :: nat

text \<open>
  \<open>struct nfs_gss_clnt_ctx\<close>. A pointer that may be \<open>NULL\<close> is an \<open>option\<close>; a buffer
  carries its length (\<open>gss_clnt_prinlen\<close>, \<open>gss_clnt_verflen\<close>, \<open>gss_clnt_tokenlen\<close>
  and \<open>gss_clnt_handle_len\<close> are the lengths of the lists). \<open>gss_clnt_addr\<close> is the
  address of the structure: it tells the contexts of a mount's list apart.
\<close>

record nfs_gss_clnt_ctx =
  gss_clnt_addr :: nat
  gss_clnt_cred :: kauth_cred
  gss_clnt_principal :: "byte list option"
  gss_clnt_prinnt :: u32
  gss_clnt_flags :: "gss_flag set"
  gss_clnt_refcnt :: int
  gss_clnt_thread :: "nat option"
  gss_clnt_proc :: rpcsec_proc
  gss_clnt_service :: rpcsec_svc
  gss_clnt_seqnum :: u32
  gss_clnt_seqwin :: u32
  gss_clnt_seqbits :: "u32 list"
  gss_clnt_nctime :: int
  gss_clnt_major :: u32
  gss_clnt_minor :: u32
  gss_clnt_verf :: "byte list option"
  gss_clnt_ctx_id :: "nat option"
  gss_clnt_gssd_flags :: "gssd_flag set"
  gss_clnt_token :: "byte list"
  gss_clnt_handle :: "byte list"
  gss_clnt_svcname :: "byte list option"

section \<open>The sequence window\<close>

text \<open>
  Modelled from the spec: the macros \<open>win_getbit\<close>, \<open>win_setbit\<close> and \<open>win_resetbit\<close>
  of nfs\_gss.h, which is not among the sources. The sequence bitmap is an array of
  32-bit words, and bit \<open>b\<close> of the bitmap is bit \<open>b mod 32\<close> of word \<open>b div 32\<close>.
\<close>

definition win_getbit :: "u32 list \<Rightarrow> nat \<Rightarrow> bool" where
  "win_getbit bits b = bit (bits ! (b div 32)) (b mod 32)"

definition win_setbit :: "u32 list \<Rightarrow> nat \<Rightarrow> u32 list" where
  "win_setbit bits b = bits[b div 32 := (bits ! (b div 32)) OR push_bit (b mod 32) 1]"

definition win_resetbit :: "u32 list \<Rightarrow> nat \<Rightarrow> u32 list" where
  "win_resetbit bits b = bits[b div 32 := (bits ! (b div 32)) AND NOT (push_bit (b mod 32) 1)]"

text \<open>
  Modelled from the spec: \<open>nfsm_rndup\<close> and \<open>nfsm_pad\<close> of nfsm\_subs.h, which is not
  among the sources: a length rounded up to the next multiple of 4, and the number
  of bytes that rounding adds.
\<close>

definition nfsm_rndup :: "nat \<Rightarrow> nat" where
  "nfsm_rndup n = ((n + 3) div 4) * 4"

definition nfsm_pad :: "nat \<Rightarrow> nat" where
  "nfsm_pad n = nfsm_rndup n - n"

text \<open>\<open>nfs_gss_seqbits_size\<close>: the size in bytes of the bitmap of a window, in 32-bit arithmetic.\<close>

definition nfs_gss_seqbits_size :: "u32 \<Rightarrow> nat" where
  "nfs_gss_seqbits_size win = nfsm_rndup (unat ((win + 7) div 8))"

text \<open>
  The index a window operation touches is below \<open>gss_clnt_seqwin\<close>; the bitmap was
  allocated for that many bits. \<open>win_index_ok\<close> is the check that the word of bit
  \<open>b\<close> lies inside the allocation.
\<close>

definition win_index_ok :: "u32 list \<Rightarrow> nat \<Rightarrow> bool" where
  "win_index_ok bits b = (b div 32 < length bits)"





text \<open>
  \<open>nfs_gss_clnt_rpcdone\<close>, on the context the request points to (\<open>None\<close> is the
  \<open>NULL\<close> pointer) and the request's list of sequence numbers, newest first. The
  result has the context, the list cut to \<open>GSS_CLNT_SEQLISTMAX\<close> entries, and
  whether \<open>wakeup\<close> was called.
\<close>

definition nfs_gss_clnt_rpcdone ::
  "nat \<Rightarrow> nfs_gss_clnt_ctx option \<Rightarrow> u32 list \<Rightarrow>
   fatal + (nfs_gss_clnt_ctx option \<times> u32 list \<times> bool)" where
  "nfs_gss_clnt_rpcdone seqlistmax cpo seqlist =
     (case cpo of
        None \<Rightarrow> Inr (None, seqlist, False)
      | Some cp \<Rightarrow>
          if GSS_CTX_COMPLETE \<notin> gss_clnt_flags cp then Inr (Some cp, seqlist, False)
          else
            let inwin = (case seqlist of
                           [] \<Rightarrow> False
                         | gsp # _ \<Rightarrow> gsp > gss_clnt_seqnum cp - gss_clnt_seqwin cp)
            in if inwin \<and> gss_clnt_seqwin cp = 0 then Inl DivideByZero
               else if inwin \<and>
                       \<not> win_index_ok (gss_clnt_seqbits cp)
                           (unat (hd seqlist mod gss_clnt_seqwin cp))
               then Inl OutOfBounds
               else
                 let bits = (if inwin
                             then win_resetbit (gss_clnt_seqbits cp)
                                    (unat (hd seqlist mod gss_clnt_seqwin cp))
                             else gss_clnt_seqbits cp);
                     woke = (GSS_NEEDSEQ \<in> gss_clnt_flags cp)
                 in Inr (Some (cp\<lparr>gss_clnt_seqbits := bits,
                                  gss_clnt_flags := gss_clnt_flags cp - {GSS_NEEDSEQ}\<rparr>),
                         take seqlistmax seqlist, woke))"

section \<open>Reference counting\<close>

text \<open>\<open>nfs_gss_clnt_ctx_ref\<close>: the request takes the context, the count goes up by one.\<close>

definition nfs_gss_clnt_ctx_ref :: "nfs_gss_clnt_ctx \<Rightarrow> nfs_gss_clnt_ctx" where
  "nfs_gss_clnt_ctx_ref cp = cp\<lparr>gss_clnt_refcnt := gss_clnt_refcnt cp + 1\<rparr>"

text \<open>
  The part of \<open>nfs_gss_clnt_ctx_unref\<close> that runs under the context lock. \<open>now\<close> is
  the clock (\<open>microuptime\<close>), \<open>rele_ok\<close> says that \<open>nfs_gss_clnt_mnt_rele\<close> returned 0.
  The result has the context and the three local flags \<open>destroy\<close>, \<open>on_neg_cache\<close>
  and \<open>neg_cache\<close>.
\<close>

definition ctx_unref_locked ::
  "int \<Rightarrow> bool \<Rightarrow> nfs_gss_clnt_ctx \<Rightarrow> fatal + (nfs_gss_clnt_ctx \<times> bool \<times> bool \<times> bool)" where
  "ctx_unref_locked now rele_ok cp =
     (let cp1 = cp\<lparr>gss_clnt_refcnt := gss_clnt_refcnt cp - 1\<rparr>
      in if gss_clnt_refcnt cp1 < 0 then Inl Panic
         else
           let zero = (gss_clnt_refcnt cp1 = 0);
               cp2 = (if zero \<and> GSS_CTX_INVAL \<in> gss_clnt_flags cp1 \<and> gss_clnt_ctx_id cp1 \<noteq> None
                      then cp1\<lparr>gss_clnt_ctx_id := None\<rparr> else cp1);
               destroy = (zero \<and> GSS_CTX_DESTROY \<in> gss_clnt_flags cp2);
               cp3 = (if destroy \<and> GSS_CTX_USECOUNT \<in> gss_clnt_flags cp2 \<and> rele_ok
                      then cp2\<lparr>gss_clnt_flags := gss_clnt_flags cp2 - {GSS_CTX_USECOUNT}\<rparr>
                      else cp2);
               on_neg_cache = (destroy \<and> gss_clnt_nctime cp3 \<noteq> 0);
               neg_cache = (\<not> destroy \<and> gss_clnt_nctime cp3 = 0 \<and>
                            GSS_CTX_INVAL \<in> gss_clnt_flags cp3);
               cp4 = (if neg_cache then cp3\<lparr>gss_clnt_nctime := now\<rparr> else cp3)
           in Inr (cp4, destroy, on_neg_cache, neg_cache))"


section \<open>The mount and the request\<close>

text \<open>
  The constants of nfs\_gss.h and nfs.h that the client uses. The two headers are
  not among the sources, so the values are the fields of a record that the operations
  take as a parameter, and nothing below depends on what they are.
\<close>

record gss_constants =
  GSS_NEG_CACHE_TO :: int
  GSS_MAX_NEG_CACHE_ENTRIES :: int
  GSS_MAX_CTX_HANDLE_LEN :: nat
  GSS_MAX_TOKEN_LEN :: nat
  NFS_TRYLATERDEL :: int
  NFS_MAXPACKET :: nat

text \<open>\<open>struct nfs_etype\<close>: the encryption types of the mount, in order of preference.\<close>

record nfs_etype =
  et_count :: nat
  et_selected :: nat
  et_etypes :: "u32 list"

text \<open>
  \<open>struct nfsmount\<close>, as far as the client reads and writes it: the list of contexts
  \<open>nm_gsscl\<close> with the head first, the number of negative cache entries, the
  encryption types, the retry limit \<open>nm_retry\<close>, the mount flags \<open>SOFT\<close> and
  \<open>INTR\<close>, and whether \<open>nfs_mount_gone\<close> holds (a forced unmount, or a dead mount).
\<close>

record nfsmount =
  nm_gsscl :: "nfs_gss_clnt_ctx list"
  nm_ncentries :: int
  nm_etype :: nfs_etype
  nm_retry :: int
  nm_soft :: bool
  nm_intr :: bool
  nm_gone :: bool

datatype rpcauth = RPCAUTH_KRB5 | RPCAUTH_KRB5I | RPCAUTH_KRB5P | RPCAUTH_OTHER

text \<open>
  \<open>struct nfsreq\<close>: the credential of the caller, the security flavor, the context
  the request points to (its address), the sequence numbers the request was sent
  with (newest first), and the request flags \<open>R_NOINTR\<close> and \<open>R_SOFT\<close>.
\<close>

record nfsreq =
  r_cred :: kauth_cred
  r_auth :: rpcauth
  r_gss_ctx :: "nat option"
  r_gss_seqlist :: "u32 list"
  r_nointr :: bool
  r_soft :: bool

section \<open>Context setup\<close>

subsection \<open>The upcall to gssd\<close>

text \<open>
  What the outside does in one upcall. The Mach exchange with gssd is not part of
  the client: \<open>gr_port_ok\<close> says that the context has a port to gssd or got one,
  \<open>gr_kr_ok\<close> that \<open>mach_gss_init_sec_context_v3\<close> ended with \<open>KERN_SUCCESS\<close> (after
  the calls the upcall repeats when gssd died), \<open>gr_major\<close> and \<open>gr_minor\<close> are the
  status gssd returned, \<open>gr_lucid\<close> the exported context and \<open>gr_otoken\<close> the output
  token; \<open>gr_otoken_fail\<close> says what went wrong with an output token that is not
  empty: the allocation of its buffer (\<open>ENOMEM\<close>) or its copy-out (\<open>NFSERR_EAUTH\<close>).
  The exported context is \<open>LucidNone\<close> when its length is
  0, \<open>LucidBad\<close> when it is too long or cannot be copied out, \<open>LucidRejected\<close> when
  \<open>gss_krb5_make_context\<close> returns \<open>NULL\<close> for it, and \<open>LucidOk h e\<close> when it gives
  the provider's context \<open>h\<close> with encryption type \<open>e\<close>.
\<close>

datatype lucid_result = LucidNone | LucidBad | LucidRejected | LucidOk nat u32

datatype otoken_fail = OtokenNoMem | OtokenNoCopy

record gssd_reply =
  gr_port_ok :: bool
  gr_kr_ok :: bool
  gr_major :: u32
  gr_minor :: u32
  gr_lucid :: lucid_result
  gr_otoken :: "byte list"
  gr_otoken_fail :: "otoken_fail option"

text \<open>
  The calls a context setup makes to the outside, in the order it makes them: an
  upcall with its retry count, the encryption types it offers and the major status
  gssd answered with, and a null call to the server with the major status of the
  server's reply.
\<close>

datatype init_event = UPCALL nat "u32 list" u32 | CALLSERVER u32

text \<open>
  The encryption types an upcall offers: the copy of the mount's array with the type
  selected last moved to the front, then without the first \<open>retrycnt\<close> entries (the
  three \<open>for\<close> loops of the upcall, on the array as a list).
\<close>

definition upcall_etypes :: "nfs_etype \<Rightarrow> nat \<Rightarrow> u32 list" where
  "upcall_etypes et retrycnt =
     (let e0 = et_etypes et;
          e1 = (if et_selected et < et_count et
                then let a = e0[0 := e0 ! et_selected et];
                         b = fold (\<lambda>i e. e[i + 1 := e0 ! i]) [0..<et_selected et] a
                     in fold (\<lambda>i e. e[i := e0 ! i]) [et_selected et + 1..<et_count et] b
                else e0);
          e2 = fold (\<lambda>i e. e[i - retrycnt := e ! i]) [retrycnt..<et_count et] e1
      in take (et_count et - retrycnt) e2)"

text \<open>
  \<open>nfs_gss_clnt_gssd_upcall\<close> up to the Mach call: the test of the mount, the reset
  after \<open>GSSD_RESTART\<close>, and the test of the retry count against the number of
  encryption types.
\<close>

definition gssd_upcall_pre ::
  "nfsmount \<Rightarrow> nfs_gss_clnt_ctx \<Rightarrow> nat \<Rightarrow> errno option \<times> nfs_gss_clnt_ctx" where
  "gssd_upcall_pre nmp cp retrycnt =
     (if nm_gone nmp then (Some ENXIO, cp)
      else
        let cp1 = (if GSSD_RESTART \<in> gss_clnt_gssd_flags cp
                   then cp\<lparr>gss_clnt_token := [], gss_clnt_proc := RPCSEC_GSS_INIT,
                           gss_clnt_handle := []\<rparr>
                   else cp)
        in if retrycnt \<ge> et_count (nm_etype nmp) then (Some EACCES, cp1)
           else (None, cp1))"

text \<open>The label \<open>out\<close> of the upcall: the token and the server's handle are dropped.\<close>

definition gssd_upcall_out :: "nfs_gss_clnt_ctx \<Rightarrow> errno option \<times> nfs_gss_clnt_ctx" where
  "gssd_upcall_out cp = (Some NFSERR_EAUTH, cp\<lparr>gss_clnt_token := [], gss_clnt_handle := []\<rparr>)"

text \<open>The index of an encryption type in the first \<open>n\<close> entries of the mount's array.\<close>

definition etype_index :: "u32 list \<Rightarrow> nat \<Rightarrow> u32 \<Rightarrow> nat option" where
  "etype_index es n e = List.find (\<lambda>i. es ! i = e) [0..<n]"

text \<open>
  The rest of \<open>nfs_gss_clnt_gssd_upcall\<close>, from the Mach call on. The choice of the
  principal name that is sent to gssd, the display name and the logging are left out.
  The result has the error, the context, the mount (an upcall can change
  \<open>nm_etype.selected\<close>) and the call as it is seen from outside.
\<close>

definition gssd_upcall_post ::
  "nfsmount \<Rightarrow> nfs_gss_clnt_ctx \<Rightarrow> nat \<Rightarrow> gssd_reply \<Rightarrow>
   errno option \<times> nfs_gss_clnt_ctx \<times> nfsmount \<times> init_event list" where
  "gssd_upcall_post nmp cp retrycnt g =
     (if \<not> gr_port_ok g then
        (case gssd_upcall_out cp of (e, cp') \<Rightarrow> (e, cp', nmp, []))
      else
        let cp1 = cp\<lparr>gss_clnt_gssd_flags :=
                        insert GSSD_LUCID_CONTEXT (gss_clnt_gssd_flags cp) - {GSSD_RESTART},
                      gss_clnt_major := gr_major g, gss_clnt_minor := gr_minor g\<rparr>;
            ev = [UPCALL retrycnt (upcall_etypes (nm_etype nmp) retrycnt) (gr_major g)]
        in if \<not> gr_kr_ok g then
             (case gssd_upcall_out cp1 of (e, cp') \<Rightarrow> (e, cp', nmp, ev))
           else
             let cp2 = (if gss_clnt_major cp1 \<noteq> GSS_S_COMPLETE \<and>
                           gss_clnt_major cp1 \<noteq> GSS_S_CONTINUE_NEEDED
                        then cp1\<lparr>gss_clnt_handle := []\<rparr> else cp1)
             in if gr_lucid g = LucidBad then
                  (case gssd_upcall_out cp2 of (e, cp') \<Rightarrow> (e, cp', nmp, ev))
                else if gr_lucid g = LucidRejected then
                  (case gssd_upcall_out (cp2\<lparr>gss_clnt_ctx_id := None\<rparr>) of
                     (e, cp') \<Rightarrow> (e, cp', nmp, ev))
                else
                  let cp3 = (case gr_lucid g of
                               LucidOk h e \<Rightarrow> cp2\<lparr>gss_clnt_ctx_id := Some h\<rparr>
                             | _ \<Rightarrow> cp2);
                      selected = (case gr_lucid g of
                               LucidOk h e \<Rightarrow>
                                 etype_index (et_etypes (nm_etype nmp)) (et_count (nm_etype nmp)) e
                             | _ \<Rightarrow> None);
                      cp4 = cp3\<lparr>gss_clnt_token := []\<rparr>
                  in if gr_otoken g \<noteq> [] \<and> gr_otoken_fail g = Some OtokenNoMem then
                       (Some ENOMEM, cp4, nmp, ev)
                     else if gr_otoken g \<noteq> [] \<and> gr_otoken_fail g = Some OtokenNoCopy then
                       (Some NFSERR_EAUTH, cp4, nmp, ev)
                     else
                       let cp5 = (if gr_otoken g \<noteq> [] then cp4\<lparr>gss_clnt_token := gr_otoken g\<rparr>
                                  else cp4);
                           nmp' = (case selected of
                                     Some i \<Rightarrow> nmp\<lparr>nm_etype := (nm_etype nmp)\<lparr>et_selected := i\<rparr>\<rparr>
                                   | None \<Rightarrow> nmp)
                       in (None, cp5, nmp', ev))"

subsection \<open>The null call to the server\<close>

text \<open>
  What the outside does in one null call: \<open>sr_error\<close> is the error or the status of
  \<open>nfs_request_gss\<close>, \<open>sr_verf\<close> the verifier that the reading of the reply stashed
  in the context (the context is not complete yet, so \<open>nfs_gss_clnt_verf_get\<close>
  keeps the verifier for later), and the other fields are the server's reply: the
  handle, the major and minor status, the sequence window and the token.
\<close>

record server_reply =
  sr_error :: "errno option"
  sr_verf :: "byte list option"
  sr_handle :: "byte list"
  sr_major :: u32
  sr_minor :: u32
  sr_seqwin :: u32
  sr_token :: "byte list"

text \<open>
  \<open>nfs_gss_clnt_ctx_callserver\<close>. The reply is taken to be well-formed XDR, and the
  buffers for the handle and the token to be there when they are allocated; what the
  function checks itself are the lengths of the handle and of the token. The token
  that was sent is freed when the call returns.
\<close>

definition nfs_gss_clnt_ctx_callserver ::
  "gss_constants \<Rightarrow> nfsmount \<Rightarrow> nfs_gss_clnt_ctx \<Rightarrow> server_reply \<Rightarrow>
   errno option \<times> nfs_gss_clnt_ctx \<times> init_event list" where
  "nfs_gss_clnt_ctx_callserver k nmp cp s =
     (if nm_gone nmp then (Some ENXIO, cp, [])
      else
        let cp0 = (case sr_verf s of None \<Rightarrow> cp | Some v \<Rightarrow> cp\<lparr>gss_clnt_verf := Some v\<rparr>);
            cp1 = cp0\<lparr>gss_clnt_token := []\<rparr>
        in case sr_error s of
             Some e \<Rightarrow> (Some e, cp1, [])
           | None \<Rightarrow>
               if \<not> (0 < length (sr_handle s) \<and> length (sr_handle s) < GSS_MAX_CTX_HANDLE_LEN k)
               then (Some EBADRPC, cp1\<lparr>gss_clnt_handle := []\<rparr>, [])
               else
                 let cp2 = cp1\<lparr>gss_clnt_handle := sr_handle s, gss_clnt_major := sr_major s,
                               gss_clnt_minor := sr_minor s, gss_clnt_seqwin := sr_seqwin s\<rparr>;
                     ev = [CALLSERVER (sr_major s)]
                 in if 0 < length (sr_token s) \<and> length (sr_token s) < GSS_MAX_TOKEN_LEN k
                    then (None, cp2\<lparr>gss_clnt_token := sr_token s\<rparr>, ev)
                    else (Some EBADRPC, cp2\<lparr>gss_clnt_token := []\<rparr>, ev))"

subsection \<open>The negotiation loop\<close>

text \<open>
  The result of the loop of \<open>nfs_gss_clnt_ctx_init\<close>: the error it left with
  (\<open>None\<close> when it left by \<open>break\<close>), the context, the mount and the calls made.
\<close>

type_synonym init_result = "errno option \<times> nfs_gss_clnt_ctx \<times> nfsmount \<times> init_event list"

definition add_events :: "init_event list \<Rightarrow> init_result option \<Rightarrow> init_result option" where
  "add_events evs r = map_option (\<lambda>(e, cp, nmp, t). (e, cp, nmp, evs @ t)) r"

definition gssd_restart :: "nfs_gss_clnt_ctx \<Rightarrow> nfs_gss_clnt_ctx" where
  "gssd_restart cp = cp\<lparr>gss_clnt_gssd_flags := insert GSSD_RESTART (gss_clnt_gssd_flags cp)\<rparr>"

text \<open>
  One pass of the loop \<open>for (;;)\<close> of \<open>nfs_gss_clnt_ctx_init\<close>, from the Mach call
  of the upcall on: \<open>g\<close> is what gssd answers and \<open>s\<close> what the server answers, if
  the pass gets as far as the null call. The pass leaves the loop (\<open>Exit\<close>, with
  the error, or with \<open>None\<close> for a \<open>break\<close>) or the loop goes round again (\<open>Again\<close>)
  with the context, \<open>retrycnt\<close>, \<open>client_complete\<close> and \<open>server_complete\<close> it has
  then. \<open>cc\<close> and \<open>sc\<close> are \<open>client_complete\<close> and \<open>server_complete\<close>.
\<close>

datatype round_result =
    Exit "errno option" nfs_gss_clnt_ctx nfsmount "init_event list"
  | Again nfs_gss_clnt_ctx nat bool bool nfsmount "init_event list"

definition ctx_init_round ::
  "gss_constants \<Rightarrow> nfsmount \<Rightarrow> nfs_gss_clnt_ctx \<Rightarrow> nat \<Rightarrow> bool \<Rightarrow> bool \<Rightarrow>
   gssd_reply \<Rightarrow> server_reply \<Rightarrow> round_result" where
  "ctx_init_round k nmp cp1 retrycnt cc sc g s =
     (case gssd_upcall_post nmp cp1 retrycnt g of
        (Some e, cp2, nmp2, ev) \<Rightarrow> Exit (Some e) cp2 nmp2 ev
      | (None, cp2, nmp2, ev) \<Rightarrow>
          if gss_clnt_major cp2 = GSS_S_COMPLETE \<and> sc then Exit None cp2 nmp2 ev
          else if gss_clnt_major cp2 \<noteq> GSS_S_COMPLETE \<and>
                  gss_clnt_major cp2 \<noteq> GSS_S_CONTINUE_NEEDED
          then Again (gssd_restart cp2) (retrycnt + 1) cc sc nmp2 ev
          else
            let cc' = (cc \<or> gss_clnt_major cp2 = GSS_S_COMPLETE)
            in (case nfs_gss_clnt_ctx_callserver k nmp2 cp2 s of
                  (Some e, cp3, ev3) \<Rightarrow>
                    if e = ENEEDAUTH \<and>
                       (gss_clnt_proc cp3 = RPCSEC_GSS_INIT \<or>
                        gss_clnt_proc cp3 = RPCSEC_GSS_CONTINUE_INIT)
                    then Again (gssd_restart cp3) (retrycnt + 1) cc' sc nmp2 (ev @ ev3)
                    else Exit (Some e) cp3 nmp2 (ev @ ev3)
                | (None, cp3, ev3) \<Rightarrow>
                    if gss_clnt_major cp3 = GSS_S_COMPLETE \<and> cc'
                    then Exit None cp3 nmp2 (ev @ ev3)
                    else if gss_clnt_major cp3 = GSS_S_COMPLETE
                    then Again cp3 retrycnt cc' True nmp2 (ev @ ev3)
                    else if gss_clnt_major cp3 = GSS_S_CONTINUE_NEEDED
                    then Again (cp3\<lparr>gss_clnt_proc := RPCSEC_GSS_CONTINUE_INIT\<rparr>)
                           retrycnt cc' sc nmp2 (ev @ ev3)
                    else Again (gssd_restart cp3) (retrycnt + 1) cc' sc nmp2 (ev @ ev3)))"

text \<open>
  The loop. Every pass makes an upcall, and the answers of gssd and of the server
  come from a script with one entry for each pass; the loop can go on for ever, and
  the result is \<open>None\<close> when the script ends before the loop does.
\<close>

fun ctx_init_loop ::
  "gss_constants \<Rightarrow> nfsmount \<Rightarrow> nfs_gss_clnt_ctx \<Rightarrow> nat \<Rightarrow> bool \<Rightarrow> bool \<Rightarrow>
   (gssd_reply \<times> server_reply) list \<Rightarrow> init_result option" where
  "ctx_init_loop k nmp cp retrycnt cc sc [] =
     (case gssd_upcall_pre nmp cp retrycnt of
        (Some e, cp1) \<Rightarrow> Some (Some e, cp1, nmp, [])
      | (None, cp1) \<Rightarrow> None)"
| "ctx_init_loop k nmp cp retrycnt cc sc ((g, s) # rest) =
     (case gssd_upcall_pre nmp cp retrycnt of
        (Some e, cp1) \<Rightarrow> Some (Some e, cp1, nmp, [])
      | (None, cp1) \<Rightarrow>
          (case ctx_init_round k nmp cp1 retrycnt cc sc g s of
             Exit e cp' nmp' ev \<Rightarrow> Some (e, cp', nmp', ev)
           | Again cp' retrycnt' cc' sc' nmp' ev \<Rightarrow>
               add_events ev (ctx_init_loop k nmp' cp' retrycnt' cc' sc' rest)))"

subsection \<open>The end of a context setup\<close>

text \<open>
  What the setup needs from outside besides the script: the service name that
  \<open>nfs_gss_clnt_svcname\<close> builds (\<open>None\<close> is \<open>NULL\<close>), the MIC check
  \<open>gss_krb5_verify_mic\<close> of the cryptographic provider, which takes the provider's
  context, the message and the MIC and returns the major status and the minor status,
  the value of \<open>random\<close>, and whether the bitmap could be allocated.
\<close>

record init_env =
  ie_svcname :: "byte list option"
  ie_script :: "(gssd_reply \<times> server_reply) list"
  ie_verify_mic :: "nat option \<Rightarrow> byte list \<Rightarrow> byte list \<Rightarrow> u32 \<times> u32"
  ie_random :: u32
  ie_alloc_ok :: bool

text \<open>A 32-bit value in network byte order (\<open>htonl\<close>), as the four bytes in memory.\<close>

definition htonl_bytes :: "u32 \<Rightarrow> byte list" where
  "htonl_bytes w = [ucast (drop_bit 24 w), ucast (drop_bit 16 w), ucast (drop_bit 8 w), ucast w]"

definition service_of_auth :: "rpcauth \<Rightarrow> rpcsec_svc" where
  "service_of_auth a =
     (case a of
        RPCAUTH_KRB5 \<Rightarrow> RPCSEC_GSS_SVC_NONE
      | RPCAUTH_KRB5I \<Rightarrow> RPCSEC_GSS_SVC_INTEGRITY
      | RPCAUTH_KRB5P \<Rightarrow> RPCSEC_GSS_SVC_PRIVACY
      | RPCAUTH_OTHER \<Rightarrow> RPCSEC_GSS_SVC_0)"

text \<open>
  The label \<open>nfsmout\<close> of \<open>nfs_gss_clnt_ctx_init\<close>: with \<open>ENEEDAUTH\<close> the function
  returns at once; otherwise an error marks the context invalid, the context is no
  longer owned by the thread, and the threads that wait for it are woken. The
  result has the error, the context and whether \<open>wakeup\<close> was called.
\<close>

definition ctx_init_out ::
  "errno option \<Rightarrow> nfs_gss_clnt_ctx \<Rightarrow> errno option \<times> nfs_gss_clnt_ctx \<times> bool" where
  "ctx_init_out err cp =
     (if err = Some ENEEDAUTH then (err, cp, False)
      else
        let fl = (if err \<noteq> None then insert GSS_CTX_INVAL (gss_clnt_flags cp)
                  else gss_clnt_flags cp)
        in (err, cp\<lparr>gss_clnt_flags := fl - {GSS_NEEDCTX}, gss_clnt_thread := None\<rparr>,
            GSS_NEEDCTX \<in> fl))"

text \<open>
  The part of \<open>nfs_gss_clnt_ctx_init\<close> after the loop was left by \<open>break\<close>: the
  context is marked complete, the saved verifier is checked as a MIC over the
  sequence window, and the sequence counter and the bitmap are set up. The check
  writes its minor status into the variable \<open>error\<close>, and that is what the function
  goes on with when the major status is \<open>GSS_S_COMPLETE\<close>.
\<close>

definition ctx_init_complete ::
  "init_env \<Rightarrow> nfs_gss_clnt_ctx \<Rightarrow> errno option \<times> nfs_gss_clnt_ctx" where
  "ctx_init_complete env cp =
     (let cp1 = cp\<lparr>gss_clnt_flags := insert GSS_CTX_COMPLETE (gss_clnt_flags cp),
                   gss_clnt_proc := RPCSEC_GSS_DATA\<rparr>;
          cksum = (case gss_clnt_verf cp1 of None \<Rightarrow> [] | Some v \<Rightarrow> v);
          st = ie_verify_mic env (gss_clnt_ctx_id cp1) (htonl_bytes (gss_clnt_seqwin cp1)) cksum;
          cp2 = cp1\<lparr>gss_clnt_verf := None\<rparr>
      in if fst st \<noteq> GSS_S_COMPLETE then (Some NFSERR_EAUTH, cp2)
         else
           let cp3 = cp2\<lparr>gss_clnt_seqnum := (ie_random env AND 0xffff) + gss_clnt_seqwin cp2,
                         gss_clnt_seqbits :=
                           (if ie_alloc_ok env
                            then replicate (nfs_gss_seqbits_size (gss_clnt_seqwin cp2) div 4) 0
                            else [])\<rparr>
           in if \<not> ie_alloc_ok env then (Some NFSERR_EAUTH, cp3)
              else (errno_of_int (snd st), cp3))"

text \<open>
  The context with which \<open>nfs_gss_clnt_ctx_init\<close> enters the loop: it has a service
  name, the procedure is \<open>RPCSEC_GSS_INIT\<close>, and the service is the one of the
  security flavor of the request.
\<close>

definition ctx_init_start :: "init_env \<Rightarrow> nfsreq \<Rightarrow> nfs_gss_clnt_ctx \<Rightarrow> nfs_gss_clnt_ctx" where
  "ctx_init_start env req cp =
     cp\<lparr>gss_clnt_svcname := (if gss_clnt_svcname cp = None then ie_svcname env
                                else gss_clnt_svcname cp),
        gss_clnt_proc := RPCSEC_GSS_INIT,
        gss_clnt_service := service_of_auth (r_auth req)\<rparr>"

text \<open>
  The MIC check that ends a negotiation: the verifier saved in the context, as a
  MIC over the sequence window of the context in network byte order.
\<close>

definition window_verified :: "init_env \<Rightarrow> nfs_gss_clnt_ctx \<Rightarrow> bool" where
  "window_verified env cp =
     (fst (ie_verify_mic env (gss_clnt_ctx_id cp) (htonl_bytes (gss_clnt_seqwin cp))
             (case gss_clnt_verf cp of None \<Rightarrow> [] | Some v \<Rightarrow> v)) = GSS_S_COMPLETE)"

text \<open>
  \<open>nfs_gss_clnt_ctx_init\<close>. The result has the error (\<open>None\<close> is 0), the context,
  whether the waiting threads were woken, the mount and the calls made; it is
  \<open>None\<close> when the script ends before the negotiation does.
\<close>

definition nfs_gss_clnt_ctx_init ::
  "gss_constants \<Rightarrow> init_env \<Rightarrow> nfsmount \<Rightarrow> nfsreq \<Rightarrow> nfs_gss_clnt_ctx \<Rightarrow>
   ((errno option \<times> nfs_gss_clnt_ctx \<times> bool) \<times> nfsmount \<times> init_event list) option" where
  "nfs_gss_clnt_ctx_init k env nmp req cp =
     (let cp0 = (if gss_clnt_svcname cp = None then cp\<lparr>gss_clnt_svcname := ie_svcname env\<rparr>
                 else cp)
      in if gss_clnt_svcname cp0 = None
         then Some (ctx_init_out (Some NFSERR_EAUTH) cp0, nmp, [])
         else
           (case ctx_init_loop k nmp (ctx_init_start env req cp) 0 False False (ie_script env) of
              None \<Rightarrow> None
            | Some (Some e, cp2, nmp2, evs) \<Rightarrow> Some (ctx_init_out (Some e) cp2, nmp2, evs)
            | Some (None, cp2, nmp2, evs) \<Rightarrow>
                (case ctx_init_complete env cp2 of
                   (e, cp3) \<Rightarrow> Some (ctx_init_out e cp3, nmp2, evs))))"

subsection \<open>The retries of a context setup\<close>

text \<open>
  One attempt of \<open>nfs_gss_clnt_ctx_init_retry\<close>, seen from the loop: \<open>ra_env\<close> is what
  the outside does during the call of \<open>nfs_gss_clnt_ctx_init\<close> of this attempt,
  \<open>ra_now\<close> is the clock when the wait begins, and \<open>ra_ticks\<close> has, for every
  \<open>tsleep\<close> of one second in the wait, what \<open>nfs_sigintr\<close> returns after it and the
  clock read after that.
\<close>

record retry_attempt =
  ra_env :: init_env
  ra_now :: int
  ra_ticks :: "(errno option \<times> int) list"

text \<open>
  The inner loop \<open>while (now.tv_sec < waituntil)\<close>: \<open>Some (Some e)\<close> when a signal or
  an unmount ended the wait, \<open>Some None\<close> when the time is over, \<open>None\<close> when the
  ticks end before the wait does.
\<close>

fun ctx_init_retry_wait :: "int \<Rightarrow> int \<Rightarrow> (errno option \<times> int) list \<Rightarrow> errno option option" where
  "ctx_init_retry_wait waituntil now [] = (if now < waituntil then None else Some None)"
| "ctx_init_retry_wait waituntil now ((intr, now') # ticks) =
     (if now < waituntil
      then (case intr of
              Some e \<Rightarrow> Some (Some e)
            | None \<Rightarrow> ctx_init_retry_wait waituntil now' ticks)
      else Some None)"

text \<open>
  The outer loop \<open>while ((error = nfs_gss_clnt_ctx_init(req, cp)) == ENEEDAUTH)\<close>.
  Every pass calls \<open>nfs_gss_clnt_ctx_init\<close> on the context and the mount as the pass
  before left them. The result has the error the loop ends with, the context, the
  mount, and the value of \<open>timeo\<close> of every wait; it is \<open>None\<close> when the attempts (or
  the script of one of them) end before the loop does.
\<close>

fun ctx_init_retry_loop ::
  "gss_constants \<Rightarrow> nfsmount \<Rightarrow> nfsreq \<Rightarrow> int \<Rightarrow> int \<Rightarrow> nfs_gss_clnt_ctx \<Rightarrow>
   retry_attempt list \<Rightarrow> (errno option \<times> nfs_gss_clnt_ctx \<times> nfsmount \<times> int list) option" where
  "ctx_init_retry_loop k nmp req retries timeo cp [] = None"
| "ctx_init_retry_loop k nmp req retries timeo cp (a # as) =
     (case nfs_gss_clnt_ctx_init k (ra_env a) nmp req cp of
        None \<Rightarrow> None
      | Some ((e, cp1, w), nmp1, evs) \<Rightarrow>
          if e \<noteq> Some ENEEDAUTH then Some (e, cp1, nmp1, [])
          else
            (case ctx_init_retry_wait (ra_now a + timeo) (ra_now a) (ra_ticks a) of
               None \<Rightarrow> None
             | Some (Some err) \<Rightarrow> Some (Some err, cp1, nmp1, [timeo])
             | Some None \<Rightarrow>
                 if (nm_soft nmp1 \<or> r_soft req) \<and> retries + 1 > nm_retry nmp1
                 then Some (Some ETIMEDOUT, cp1, nmp1, [timeo])
                 else
                   map_option (\<lambda>(e', cp', nmp', ts). (e', cp', nmp', timeo # ts))
                     (ctx_init_retry_loop k nmp1 req (retries + 1)
                        (if timeo * 2 > 60 then 60 else timeo * 2) cp1 as)))"

text \<open>
  The label \<open>bad\<close> of \<open>nfs_gss_clnt_ctx_init_retry\<close>: the context is given up. The
  result has the context and whether \<open>wakeup\<close> was called.
\<close>

definition ctx_init_retry_bad :: "nfs_gss_clnt_ctx \<Rightarrow> nfs_gss_clnt_ctx \<times> bool" where
  "ctx_init_retry_bad cp =
     (cp\<lparr>gss_clnt_flags := insert GSS_CTX_INVAL (gss_clnt_flags cp) - {GSS_NEEDCTX},
         gss_clnt_thread := None\<rparr>,
      GSS_NEEDCTX \<in> gss_clnt_flags cp)"

text \<open>
  \<open>nfs_gss_clnt_ctx_init_retry\<close>. The result has the error (\<open>None\<close> is 0), the
  context, the mount, whether \<open>wakeup\<close> was called at the label \<open>bad\<close>, and the value
  of \<open>timeo\<close> of every wait.
\<close>

definition nfs_gss_clnt_ctx_init_retry ::
  "gss_constants \<Rightarrow> nfsmount \<Rightarrow> nfsreq \<Rightarrow> nfs_gss_clnt_ctx \<Rightarrow> retry_attempt list \<Rightarrow>
   (errno option \<times> nfs_gss_clnt_ctx \<times> nfsmount \<times> bool \<times> int list) option" where
  "nfs_gss_clnt_ctx_init_retry k nmp req cp attempts =
     (if nm_gone nmp
      then (case ctx_init_retry_bad cp of (cp', w) \<Rightarrow> Some (Some ENXIO, cp', nmp, w, []))
      else
        (case ctx_init_retry_loop k nmp req 0 (NFS_TRYLATERDEL k) cp attempts of
           None \<Rightarrow> None
         | Some (None, cp1, nmp1, ts) \<Rightarrow> Some (None, cp1, nmp1, False, ts)
         | Some (Some e, cp1, nmp1, ts) \<Rightarrow>
             (case ctx_init_retry_bad cp1 of (cp', w) \<Rightarrow> Some (Some e, cp', nmp1, w, ts))))"

text \<open>
  The value of \<open>timeo\<close> at the wait number \<open>i\<close> (from 0) of a loop that starts with
  \<open>t0\<close>: doubled after every wait, and 60 when the double is more than 60.
\<close>

fun retry_timeo :: "int \<Rightarrow> nat \<Rightarrow> int" where
  "retry_timeo t0 0 = t0"
| "retry_timeo t0 (Suc i) = retry_timeo (if t0 * 2 > 60 then 60 else t0 * 2) i"

text \<open>
  An upcall event, as opposed to a null call.
\<close>

definition is_upcall :: "init_event \<Rightarrow> bool" where
  "is_upcall ev = (case ev of UPCALL r es m \<Rightarrow> True | CALLSERVER m \<Rightarrow> False)"



text \<open>The second mount is the first but for the selected encryption type.\<close>

definition same_but_selected :: "nfsmount \<Rightarrow> nfsmount \<Rightarrow> bool" where
  "same_but_selected nmp nmp' =
     (nmp' = nmp\<lparr>nm_etype := (nm_etype nmp)\<lparr>et_selected := et_selected (nm_etype nmp')\<rparr>\<rparr>)"

text \<open>
  Among the calls made, gssd answered an upcall with \<open>GSS_S_COMPLETE\<close>, and the
  server answered a null call with \<open>GSS_S_COMPLETE\<close>.
\<close>

definition gssd_said_complete :: "init_event list \<Rightarrow> bool" where
  "gssd_said_complete evs =
     list_ex (\<lambda>ev. case ev of UPCALL r es m \<Rightarrow> m = GSS_S_COMPLETE | CALLSERVER m \<Rightarrow> False) evs"

definition server_said_complete :: "init_event list \<Rightarrow> bool" where
  "server_said_complete evs =
     list_ex (\<lambda>ev. case ev of UPCALL r es m \<Rightarrow> False | CALLSERVER m \<Rightarrow> m = GSS_S_COMPLETE) evs"

section \<open>The registry of contexts of a mount\<close>

text \<open>
  The loop of \<open>nfs_gss_clnt_ctx_neg_cache_reap\<close> over the list of contexts, from the
  head: the list that is left and the count \<open>nm_ncentries\<close> at the end. \<open>n\<close> is the
  count so far.
\<close>

fun neg_cache_reap_loop ::
  "gss_constants \<Rightarrow> int \<Rightarrow> int \<Rightarrow> nfs_gss_clnt_ctx list \<Rightarrow> nfs_gss_clnt_ctx list \<times> int" where
  "neg_cache_reap_loop k now n [] = ([], n)"
| "neg_cache_reap_loop k now n (cp # rest) =
     (if GSS_CTX_STICKY \<in> gss_clnt_flags cp \<or> GSS_CTX_INVAL \<notin> gss_clnt_flags cp
      then (case neg_cache_reap_loop k now n rest of (l, n') \<Rightarrow> (cp # l, n'))
      else if n \<le> GSS_MAX_NEG_CACHE_ENTRIES k then (cp # rest, n)
      else if gss_clnt_nctime cp + GSS_NEG_CACHE_TO k \<ge> now
      then (case neg_cache_reap_loop k now n rest of (l, n') \<Rightarrow> (cp # l, n'))
      else if gss_clnt_refcnt cp = 0
      then neg_cache_reap_loop k now (n + 1) rest
      else (case neg_cache_reap_loop k now n rest of (l, n') \<Rightarrow> (cp # l, n')))"

definition nfs_gss_clnt_ctx_neg_cache_reap :: "gss_constants \<Rightarrow> int \<Rightarrow> nfsmount \<Rightarrow> nfsmount" where
  "nfs_gss_clnt_ctx_neg_cache_reap k now nmp =
     (case neg_cache_reap_loop k now (nm_ncentries nmp) (nm_gsscl nmp) of
        (l, n) \<Rightarrow> nmp\<lparr>nm_gsscl := l, nm_ncentries := n\<rparr>)"

text \<open>
  \<open>nfs_gss_clnt_ctx_unref\<close> on a mount: \<open>ro\<close> is the pointer \<open>r_gss_ctx\<close> of the
  request. The function works on the context the pointer leads to, on the mount's
  list or not: \<open>off\<close> has the contexts that are allocated and on no list (as
  \<open>nfs_gss_clnt_ctx_unmount\<close> has them when it releases them), and a pointer to no
  context at all is a pointer into freed memory. A context that is destroyed leaves
  the list it is on; a context that becomes a negative cache entry is counted, and
  the reaper runs.
\<close>

definition nfs_gss_clnt_ctx_unref ::
  "gss_constants \<Rightarrow> int \<Rightarrow> bool \<Rightarrow> nfsmount \<Rightarrow> nfs_gss_clnt_ctx list \<Rightarrow> nat option \<Rightarrow>
   fatal + (nfsmount \<times> nfs_gss_clnt_ctx list)" where
  "nfs_gss_clnt_ctx_unref k now rele_ok nmp off ro =
     (case ro of
        None \<Rightarrow> Inr (nmp, off)
      | Some a \<Rightarrow>
          (case List.find (\<lambda>c. gss_clnt_addr c = a) (nm_gsscl nmp @ off) of
             None \<Rightarrow> Inl OutOfBounds
           | Some cp \<Rightarrow>
               (case ctx_unref_locked now rele_ok cp of
                  Inl f \<Rightarrow> Inl f
                | Inr (cp', destroy, on_neg_cache, neg_cache) \<Rightarrow>
                    if destroy
                    then Inr (nmp\<lparr>nm_gsscl := filter (\<lambda>c. gss_clnt_addr c \<noteq> a) (nm_gsscl nmp),
                                  nm_ncentries := (if on_neg_cache then nm_ncentries nmp - 1
                                                   else nm_ncentries nmp)\<rparr>,
                              filter (\<lambda>c. gss_clnt_addr c \<noteq> a) off)
                    else
                      let nmp1 = nmp\<lparr>nm_gsscl :=
                                   map (\<lambda>c. if gss_clnt_addr c = a then cp' else c) (nm_gsscl nmp)\<rparr>;
                          off1 = map (\<lambda>c. if gss_clnt_addr c = a then cp' else c) off
                      in if neg_cache
                         then Inr (nfs_gss_clnt_ctx_neg_cache_reap k now
                                     (nmp1\<lparr>nm_ncentries := nm_ncentries nmp1 + 1\<rparr>), off1)
                         else Inr (nmp1, off1))))"

text \<open>A context as \<open>kalloc_type\<close> with \<open>Z_ZERO\<close> returns it, at address \<open>a\<close>.\<close>

definition ctx_zero :: "nat \<Rightarrow> kauth_cred \<Rightarrow> nfs_gss_clnt_ctx" where
  "ctx_zero a cred =
     \<lparr>gss_clnt_addr = a, gss_clnt_cred = cred, gss_clnt_principal = None, gss_clnt_prinnt = 0,
      gss_clnt_flags = {}, gss_clnt_refcnt = 0, gss_clnt_thread = None,
      gss_clnt_proc = RPCSEC_GSS_DATA, gss_clnt_service = RPCSEC_GSS_SVC_0,
      gss_clnt_seqnum = 0, gss_clnt_seqwin = 0, gss_clnt_seqbits = [], gss_clnt_nctime = 0,
      gss_clnt_major = 0, gss_clnt_minor = 0, gss_clnt_verf = None, gss_clnt_ctx_id = None,
      gss_clnt_gssd_flags = {}, gss_clnt_token = [], gss_clnt_handle = [],
      gss_clnt_svcname = None\<rparr>"

text \<open>
  \<open>nfs_gss_clnt_ctx_clean\<close>: the identity of the context stays, the rest is reset;
  the buffers are freed, the service name among them.
\<close>

definition nfs_gss_clnt_ctx_clean :: "nfs_gss_clnt_ctx \<Rightarrow> nfs_gss_clnt_ctx" where
  "nfs_gss_clnt_ctx_clean cp =
     cp\<lparr>gss_clnt_flags := {}, gss_clnt_seqnum := 0, gss_clnt_handle := [],
        gss_clnt_nctime := 0, gss_clnt_seqbits := [], gss_clnt_seqwin := 0,
        gss_clnt_verf := None,
        gss_clnt_svcname := None,
        gss_clnt_token := []\<rparr>"

text \<open>
  \<open>nfs_gss_clnt_ctx_copy\<close>: a new context at address \<open>a\<close> with the identity of the
  old one; \<open>port_ok\<close> says that a port to gssd could be got.
\<close>

definition nfs_gss_clnt_ctx_copy ::
  "bool \<Rightarrow> nat \<Rightarrow> nfs_gss_clnt_ctx \<Rightarrow> errno + nfs_gss_clnt_ctx" where
  "nfs_gss_clnt_ctx_copy port_ok a scp =
     (if \<not> port_ok then Inl EPIPE
      else Inr ((ctx_zero a (gss_clnt_cred scp))
                  \<lparr>gss_clnt_principal := gss_clnt_principal scp,
                   gss_clnt_prinnt := gss_clnt_prinnt scp,
                   gss_clnt_service := gss_clnt_service scp,
                   gss_clnt_gssd_flags := gss_clnt_gssd_flags scp,
                   gss_clnt_major := gss_clnt_major scp,
                   gss_clnt_minor := gss_clnt_minor scp\<rparr>))"

text \<open>
  What a lookup needs from outside: the address of the context it may allocate,
  the thread that runs it, whether a port to gssd can be got for a copy, whether
  \<open>nfs_gss_clnt_mnt_ref\<close> and \<open>nfs_gss_clnt_mnt_rele\<close> return 0, the tunable
  \<open>nfs_root_steals_ctx\<close>, and the attempts of the context setup.
\<close>

record find_env =
  fe_newaddr :: nat
  fe_thread :: nat
  fe_port_ok :: bool
  fe_mnt_ref_ok :: bool
  fe_mnt_rele_ok :: bool
  fe_root_steals :: bool
  fe_attempts :: "retry_attempt list"

text \<open>
  The result of a lookup: the error (\<open>None\<close> is 0), the mount, the request, and the
  address of the context that was set up, when the lookup went as far as
  \<open>nfs_gss_clnt_ctx_init_retry\<close>.
\<close>

record find_result =
  fr_error :: "errno option"
  fr_mount :: nfsmount
  fr_req :: nfsreq
  fr_setup :: "nat option"

definition nfs_gss_clnt_ctx_cred_match :: "kauth_cred \<Rightarrow> kauth_cred \<Rightarrow> bool" where
  "nfs_gss_clnt_ctx_cred_match cred1 cred2 = (cr_asid cred1 = cr_asid cred2)"

text \<open>
  The test of the requested principal against the one of the context: the lengths,
  the name types, and the bytes (\<open>bcmp\<close>).
\<close>

definition ctx_principal_differs ::
  "nfs_gss_clnt_ctx \<Rightarrow> (byte list \<times> u32) option \<Rightarrow> bool" where
  "ctx_principal_differs cp princ =
     (case princ of
        None \<Rightarrow> False
      | Some (p, nt) \<Rightarrow>
          let q = (case gss_clnt_principal cp of None \<Rightarrow> [] | Some q \<Rightarrow> q)
          in length q \<noteq> length p \<or> gss_clnt_prinnt cp \<noteq> nt \<or> q \<noteq> p)"

text \<open>
  The second half of \<open>nfs_gss_clnt_ctx_find_principal\<close>, after the walk over the
  list: \<open>cpo\<close> is the local variable \<open>cp\<close> (\<open>None\<close> is \<open>NULL\<close>), \<open>treq\<close> the pointer
  \<open>r_gss_ctx\<close> of the temporary request.
\<close>

definition ctx_find_create ::
  "gss_constants \<Rightarrow> int \<Rightarrow> find_env \<Rightarrow> nfsmount \<Rightarrow> nfsreq \<Rightarrow> (byte list \<times> u32) option \<Rightarrow>
   nfs_gss_clnt_ctx option \<Rightarrow> nat option \<Rightarrow> (fatal + find_result) option" where
  "ctx_find_create k now fe nmp req princ cpo treq =
     (let steal = (if cpo = None \<and> fe_root_steals fe \<and> princ = None \<and> cr_uid (r_cred req) = 0
                   then List.find (\<lambda>c. GSS_CTX_INVAL \<notin> gss_clnt_flags c \<and>
                                        GSS_CTX_DESTROY \<notin> gss_clnt_flags c) (nm_gsscl nmp)
                   else None)
      in case steal of
           Some c \<Rightarrow>
             Some (Inr \<lparr>fr_error = None,
                        fr_mount = nmp\<lparr>nm_gsscl :=
                          map (\<lambda>x. if gss_clnt_addr x = gss_clnt_addr c
                                    then nfs_gss_clnt_ctx_ref x else x) (nm_gsscl nmp)\<rparr>,
                        fr_req = req\<lparr>r_gss_ctx := Some (gss_clnt_addr c)\<rparr>,
                        fr_setup = None\<rparr>)
         | None \<Rightarrow>
             let cp0 = (case cpo of
                          None \<Rightarrow>
                            let z = ctx_zero (fe_newaddr fe) (r_cred req)
                            in (case princ of
                                  None \<Rightarrow> z
                                | Some (p, nt) \<Rightarrow>
                                    z\<lparr>gss_clnt_principal := Some p, gss_clnt_prinnt := nt,
                                      gss_clnt_flags :=
                                        (if fe_mnt_ref_ok fe
                                         then {GSS_CTX_STICKY, GSS_CTX_USECOUNT}
                                         else {GSS_CTX_STICKY})\<rparr>)
                        | Some cp \<Rightarrow>
                            let oldflags = gss_clnt_flags cp;
                                c = nfs_gss_clnt_ctx_clean cp
                            in if princ \<noteq> None
                               then c\<lparr>gss_clnt_flags :=
                                        (if GSS_CTX_USECOUNT \<in> oldflags \<or> fe_mnt_ref_ok fe
                                         then {GSS_CTX_STICKY, GSS_CTX_USECOUNT}
                                         else {GSS_CTX_STICKY})\<rparr>
                               else c);
                 cp1 = nfs_gss_clnt_ctx_ref (cp0\<lparr>gss_clnt_thread := Some (fe_thread fe)\<rparr>);
                 nmp1 = nmp\<lparr>nm_gsscl := cp1 # nm_gsscl nmp\<rparr>;
                 req1 = req\<lparr>r_gss_ctx := Some (gss_clnt_addr cp1)\<rparr>
             in case nfs_gss_clnt_ctx_init_retry k nmp1 req1 cp1 (fe_attempts fe) of
                  None \<Rightarrow> None
                | Some (e, cp2, nmpi, w, ts) \<Rightarrow>
                    let nmp2 = nmpi\<lparr>nm_gsscl := cp2 # nm_gsscl nmp\<rparr>;
                        r1 = (if e \<noteq> None
                              then nfs_gss_clnt_ctx_unref k now (fe_mnt_rele_ok fe) nmp2 []
                                     (r_gss_ctx req1)
                              else Inr (nmp2, []));
                        req2 = (if e \<noteq> None then req1\<lparr>r_gss_ctx := None\<rparr> else req1)
                    in (case r1 of
                          Inl f \<Rightarrow> Some (Inl f)
                        | Inr (nmp3, off3) \<Rightarrow>
                            (case nfs_gss_clnt_ctx_unref k now (fe_mnt_rele_ok fe) nmp3 off3 treq of
                               Inl f \<Rightarrow> Some (Inl f)
                             | Inr (nmp4, off4) \<Rightarrow>
                                 Some (Inr \<lparr>fr_error = e, fr_mount = nmp4, fr_req = req2,
                                            fr_setup = Some (gss_clnt_addr cp1)\<rparr>))))"

text \<open>
  \<open>nfs_gss_clnt_ctx_find_principal\<close>. The walk over the list stops at the first
  context that is not marked \<open>GSS_CTX_DESTROY\<close> and whose credential matches the
  one of the request; that context moves to the head of the list. The result is
  \<open>None\<close> when the attempts of a context setup end before the setup does.
\<close>

definition nfs_gss_clnt_ctx_find_principal ::
  "gss_constants \<Rightarrow> int \<Rightarrow> find_env \<Rightarrow> nfsmount \<Rightarrow> nfsreq \<Rightarrow> (byte list \<times> u32) option \<Rightarrow>
   (fatal + find_result) option" where
  "nfs_gss_clnt_ctx_find_principal k now fe nmp req princ =
     (case List.find (\<lambda>c. GSS_CTX_DESTROY \<notin> gss_clnt_flags c \<and>
                           nfs_gss_clnt_ctx_cred_match (gss_clnt_cred c) (r_cred req))
             (nm_gsscl nmp) of
        None \<Rightarrow> ctx_find_create k now fe nmp req princ None None
      | Some cp \<Rightarrow>
          let others = remove1 cp (nm_gsscl nmp)
          in if ctx_principal_differs cp princ then
               let cpd = cp\<lparr>gss_clnt_flags :=
                              gss_clnt_flags cp \<union> {GSS_CTX_INVAL, GSS_CTX_DESTROY},
                            gss_clnt_refcnt := gss_clnt_refcnt cp + 1\<rparr>
               in ctx_find_create k now fe (nmp\<lparr>nm_gsscl := cpd # others\<rparr>) req princ None
                    (Some (gss_clnt_addr cp))
             else if GSS_CTX_INVAL \<in> gss_clnt_flags cp then
               if gss_clnt_nctime cp + GSS_NEG_CACHE_TO k \<ge> now \<or> gss_clnt_nctime cp = 0
               then Some (Inr \<lparr>fr_error = Some NFSERR_EAUTH,
                               fr_mount = nmp\<lparr>nm_gsscl := cp # others\<rparr>,
                               fr_req = req, fr_setup = None\<rparr>)
               else if gss_clnt_refcnt cp \<noteq> 0 then
                 let cpd = cp\<lparr>gss_clnt_flags := insert GSS_CTX_DESTROY (gss_clnt_flags cp)\<rparr>;
                     nmp1 = nmp\<lparr>nm_gsscl := cpd # others\<rparr>
                 in (case nfs_gss_clnt_ctx_copy (fe_port_ok fe) (fe_newaddr fe) cpd of
                       Inl e \<Rightarrow> Some (Inr \<lparr>fr_error = Some e, fr_mount = nmp1,
                                              fr_req = req, fr_setup = None\<rparr>)
                     | Inr ncp \<Rightarrow> ctx_find_create k now fe nmp1 req princ (Some ncp) None)
               else
                 ctx_find_create k now fe
                   (nmp\<lparr>nm_gsscl := others,
                        nm_ncentries := (if gss_clnt_nctime cp \<noteq> 0 then nm_ncentries nmp - 1
                                         else nm_ncentries nmp)\<rparr>)
                   req princ (Some cp) None
             else
               Some (Inr \<lparr>fr_error = None,
                          fr_mount = nmp\<lparr>nm_gsscl := nfs_gss_clnt_ctx_ref cp # others\<rparr>,
                          fr_req = req\<lparr>r_gss_ctx := Some (gss_clnt_addr cp)\<rparr>,
                          fr_setup = None\<rparr>))"

section \<open>The verifier of a reply\<close>

text \<open>
  Modelled from the spec: the macros \<open>nfsm_chain_get_32\<close>, \<open>nfsm_chain_get_opaque\<close> and
  \<open>nfsm_chain_adv\<close> of nfsm\_subs.h, which is not among the sources. A chain that is
  read is the list of the bytes not read yet, together with the variable \<open>error\<close>
  of the caller: a macro does nothing when the error is set already, and sets
  \<open>EBADRPC\<close> when the chain is too short. Values are unsigned 32-bit numbers in
  network byte order, and opaque data is followed by padding to a multiple of 4.
\<close>

type_synonym chain_state = "errno option \<times> byte list"

definition be32 :: "byte list \<Rightarrow> u32" where
  "be32 bs = push_bit 24 (ucast (bs ! 0)) OR push_bit 16 (ucast (bs ! 1)) OR
             push_bit 8 (ucast (bs ! 2)) OR ucast (bs ! 3)"

definition nfsm_chain_get_32 :: "u32 \<Rightarrow> chain_state \<Rightarrow> u32 \<times> chain_state" where
  "nfsm_chain_get_32 dflt st =
     (case st of
        (Some e, bs) \<Rightarrow> (dflt, st)
      | (None, bs) \<Rightarrow>
          if length bs < 4 then (dflt, (Some EBADRPC, bs))
          else (be32 (take 4 bs), (None, drop 4 bs)))"

definition nfsm_chain_get_opaque :: "nat \<Rightarrow> byte list \<Rightarrow> chain_state \<Rightarrow> byte list \<times> chain_state" where
  "nfsm_chain_get_opaque len dflt st =
     (case st of
        (Some e, bs) \<Rightarrow> (dflt, st)
      | (None, bs) \<Rightarrow>
          if length bs < nfsm_rndup len then (dflt, (Some EBADRPC, bs))
          else (take len bs, (None, drop (nfsm_rndup len) bs)))"

definition nfsm_chain_adv :: "nat \<Rightarrow> chain_state \<Rightarrow> chain_state" where
  "nfsm_chain_adv len st =
     (case st of
        (Some e, bs) \<Rightarrow> st
      | (None, bs) \<Rightarrow>
          if length bs < len then (Some EBADRPC, bs) else (None, drop len bs))"

text \<open>The authentication flavors of a verifier, and the accepted status of a reply.\<close>

definition RPCAUTH_NULL :: u32 where
  "RPCAUTH_NULL = 0"

definition RPCSEC_GSS :: u32 where
  "RPCSEC_GSS = 6"

definition RPC_SUCCESS :: u32 where
  "RPC_SUCCESS = 0"

text \<open>
  What \<open>nfs_gss_clnt_verf_get\<close> needs from outside: the MIC check
  \<open>gss_krb5_verify_mic\<close> of the cryptographic provider (the provider's context,
  the message, the MIC; the result is the major status), whether the buffer for a
  stashed verifier could be allocated, and the decoding of the results under
  integrity or privacy, which takes the context, the sequence number whose MIC
  matched and the chain.
\<close>

record verf_env =
  ve_verify_mic :: "nat option \<Rightarrow> byte list \<Rightarrow> byte list \<Rightarrow> u32"
  ve_alloc_ok :: bool
  ve_results :: "nfs_gss_clnt_ctx \<Rightarrow> u32 \<Rightarrow> chain_state \<Rightarrow> chain_state"

text \<open>
  The result: the error (\<open>None\<close> is 0), the context, \<open>*accepted_statusp\<close>, the chain,
  and the sequence numbers whose MIC was checked against the verifier, in order.
\<close>

record verf_result =
  vr_error :: "errno option"
  vr_ctx :: "nfs_gss_clnt_ctx option"
  vr_accepted :: u32
  vr_chain :: "byte list"
  vr_mic_checks :: "u32 list"

text \<open>
  The search of the request's sequence numbers, newest first, for one whose MIC is
  the verifier: the number found and the numbers that were tried.
\<close>

fun verf_search ::
  "(byte list \<Rightarrow> byte list \<Rightarrow> u32) \<Rightarrow> byte list \<Rightarrow> u32 list \<Rightarrow> u32 option \<times> u32 list" where
  "verf_search vm cksum [] = (None, [])"
| "verf_search vm cksum (seq # rest) =
     (if vm (htonl_bytes seq) cksum = GSS_S_COMPLETE then (Some seq, [seq])
      else (case verf_search vm cksum rest of (r, tried) \<Rightarrow> (r, seq # tried)))"

text \<open>
  \<open>nfs_gss_clnt_verf_get\<close>: \<open>cpo\<close> is the context of the request (\<open>None\<close> is \<open>NULL\<close>),
  \<open>seqlist\<close> the sequence numbers of the request, \<open>chain\<close> the reply after the
  flavor and the length of the verifier.
\<close>

definition nfs_gss_clnt_verf_get ::
  "verf_env \<Rightarrow> nfs_gss_clnt_ctx option \<Rightarrow> u32 list \<Rightarrow> byte list \<Rightarrow> u32 \<Rightarrow> nat \<Rightarrow> verf_result" where
  "nfs_gss_clnt_verf_get ve cpo seqlist chain verftype verflen =
     (case cpo of
        None \<Rightarrow> \<lparr>vr_error = Some NFSERR_EAUTH, vr_ctx = None, vr_accepted = 0,
                  vr_chain = chain, vr_mic_checks = []\<rparr>
      | Some cp \<Rightarrow>
          let fail = (\<lambda>e. \<lparr>vr_error = Some e, vr_ctx = Some cp, vr_accepted = 0,
                           vr_chain = chain, vr_mic_checks = []\<rparr>)
          in if verftype \<noteq> RPCSEC_GSS then
               if verftype \<noteq> RPCAUTH_NULL then fail NFSERR_EAUTH
               else if GSS_CTX_COMPLETE \<in> gss_clnt_flags cp then fail NFSERR_EAUTH
               else
                 let st1 = (if verflen > 0 then nfsm_chain_adv (nfsm_rndup verflen) (None, chain)
                            else (None, chain))
                 in (case nfsm_chain_get_32 0 st1 of
                       (acc, st2) \<Rightarrow>
                         \<lparr>vr_error = fst st2, vr_ctx = Some cp, vr_accepted = acc,
                          vr_chain = snd st2, vr_mic_checks = []\<rparr>)
             else if GSS_CTX_COMPLETE \<notin> gss_clnt_flags cp then
               if verflen > KRB5_MAX_MIC_SIZE then fail EBADRPC
               else if \<not> ve_alloc_ok ve then fail ENOMEM
               else
                 (case nfsm_chain_get_opaque verflen (replicate verflen 0) (None, chain) of
                    (v, st1) \<Rightarrow>
                      (case nfsm_chain_get_32 0 st1 of
                         (acc, st2) \<Rightarrow>
                           \<lparr>vr_error = fst st2, vr_ctx = Some (cp\<lparr>gss_clnt_verf := Some v\<rparr>),
                            vr_accepted = acc, vr_chain = snd st2, vr_mic_checks = []\<rparr>))
             else if verflen > KRB5_MAX_MIC_SIZE then fail EBADRPC
             else
               (case nfsm_chain_get_opaque verflen [] (None, chain) of
                  (cksum, st1) \<Rightarrow>
                    if fst st1 \<noteq> None
                    then \<lparr>vr_error = fst st1, vr_ctx = Some cp, vr_accepted = 0,
                          vr_chain = snd st1, vr_mic_checks = []\<rparr>
                    else
                      (case verf_search (ve_verify_mic ve (gss_clnt_ctx_id cp)) cksum seqlist of
                         (None, tried) \<Rightarrow>
                           \<lparr>vr_error = Some NFSERR_EAUTH, vr_ctx = Some cp, vr_accepted = 0,
                            vr_chain = snd st1, vr_mic_checks = tried\<rparr>
                       | (Some gsp, tried) \<Rightarrow>
                           (case nfsm_chain_get_32 0 st1 of
                              (acc, st2) \<Rightarrow>
                                if acc \<noteq> RPC_SUCCESS
                                then \<lparr>vr_error = None, vr_ctx = Some cp, vr_accepted = acc,
                                      vr_chain = snd st2, vr_mic_checks = tried\<rparr>
                                else
                                  let st3 = (if gss_clnt_service cp = RPCSEC_GSS_SVC_INTEGRITY \<or>
                                                gss_clnt_service cp = RPCSEC_GSS_SVC_PRIVACY
                                             then ve_results ve cp gsp st2 else st2)
                                  in \<lparr>vr_error = fst st3, vr_ctx = Some cp, vr_accepted = acc,
                                      vr_chain = snd st3, vr_mic_checks = tried\<rparr>))))"

section \<open>Integrity and privacy framing of the call arguments\<close>

text \<open>
  Modelled from the spec: the mbuf routines of the kernel (\<open>mbuf_len\<close>, \<open>mbuf_next\<close>,
  \<open>mbuf_adj\<close>, \<open>mbuf_prepend\<close>, \<open>mbuf_get\<close>, \<open>mbuf_setdata\<close>) and the chain-building
  macros of nfsm\_subs.h, which are not among the sources. An mbuf is its data and
  the free space in front of the data; a chain is the list of its mbufs, and
  \<open>NULL\<close> is the empty list.
\<close>

record mbuf =
  m_lead :: nat
  m_bytes :: "byte list"

type_synonym mchain = "mbuf list"

definition mbuf_len :: "mbuf \<Rightarrow> nat" where
  "mbuf_len m = length (m_bytes m)"

definition chain_bytes :: "mchain \<Rightarrow> byte list" where
  "chain_bytes c = concat (map m_bytes c)"

text \<open>\<open>nfs_gss_mchain_length\<close>: the number of bytes in a chain.\<close>

definition nfs_gss_mchain_length :: "mchain \<Rightarrow> nat" where
  "nfs_gss_mchain_length c = sum_list (map mbuf_len c)"

text \<open>
  \<open>mbuf_adj\<close> with a positive length: the bytes are taken from the front of the
  chain; an mbuf that loses all its bytes stays in the chain with length 0.
\<close>

fun mbuf_adj :: "mchain \<Rightarrow> nat \<Rightarrow> mchain" where
  "mbuf_adj [] n = []"
| "mbuf_adj (m # ms) n =
     (if n = 0 then m # ms
      else if mbuf_len m \<le> n then m\<lparr>m_bytes := []\<rparr> # mbuf_adj ms (n - mbuf_len m)
      else m\<lparr>m_lead := m_lead m + n, m_bytes := drop n (m_bytes m)\<rparr> # ms)"

text \<open>
  \<open>mbuf_prepend\<close>: the bytes go in front of the data of the first mbuf when it has
  the space for them, and into a new mbuf in front of the chain otherwise.
\<close>

definition mbuf_prepend :: "mchain \<Rightarrow> byte list \<Rightarrow> mchain" where
  "mbuf_prepend c bs =
     (case c of
        [] \<Rightarrow> [\<lparr>m_lead = 0, m_bytes = bs\<rparr>]
      | m # ms \<Rightarrow>
          if length bs \<le> m_lead m
          then m\<lparr>m_lead := m_lead m - length bs, m_bytes := bs @ m_bytes m\<rparr> # ms
          else \<lparr>m_lead = 0, m_bytes = bs\<rparr> # m # ms)"

text \<open>\<open>rpc_gss_prepend_32\<close>: a 32-bit value in network byte order in front of the chain.\<close>

definition rpc_gss_prepend_32 :: "mchain \<Rightarrow> u32 \<Rightarrow> mchain" where
  "rpc_gss_prepend_32 c v = mbuf_prepend c (htonl_bytes v)"

text \<open>
  \<open>rpc_gss_data_create\<close>: the sequence number in an mbuf of its own, with 16 words
  of free space in front of it, ahead of the chain.
\<close>

definition rpc_gss_data_create :: "mchain \<Rightarrow> u32 \<Rightarrow> mchain" where
  "rpc_gss_data_create c seqnum = \<lparr>m_lead = 64, m_bytes = htonl_bytes seqnum\<rparr> # c"

text \<open>
  The cryptographic provider for one security context: \<open>gss_krb5_get_mic_mbuf\<close>
  takes the bytes to sign and returns the major status, the minor status and the
  MIC; \<open>gss_krb5_wrap_mbuf\<close> and \<open>gss_krb5_unwrap_mbuf\<close> take the bytes of a chain and
  return the major status, the minor status and the chain that replaces it.
\<close>

record gss_crypto =
  gc_get_mic :: "byte list \<Rightarrow> u32 \<times> u32 \<times> byte list"
  gc_wrap :: "byte list \<Rightarrow> u32 \<times> u32 \<times> mchain"
  gc_unwrap :: "byte list \<Rightarrow> u32 \<times> u32 \<times> mchain"

text \<open>The padding that follows opaque data of length \<open>n\<close>.\<close>

definition xdrpad :: "nat \<Rightarrow> byte list" where
  "xdrpad n = replicate (nfsm_pad n) 0"

text \<open>
  \<open>rpc_gss_integ_data_create\<close>: the result has the error (\<open>None\<close> is 0), the chain
  \<open>*mb_head\<close> and the length written to \<open>*len\<close> (\<open>None\<close> when the function does not
  write it). The chain is the length of the sequence number and the arguments, the
  sequence number, the arguments, and in an mbuf of its own the MIC as opaque data.
  When the provider fails, the function returns the minor status, which is what
  the provider wrote into \<open>error\<close>.
\<close>

definition rpc_gss_integ_data_create ::
  "gss_crypto \<Rightarrow> mchain \<Rightarrow> u32 \<Rightarrow> errno option \<times> mchain \<times> nat option" where
  "rpc_gss_integ_data_create gc c seqnum =
     (let len = nfs_gss_mchain_length c;
          c1 = rpc_gss_data_create c seqnum;
          length' = len + 4
      in case gc_get_mic gc (take length' (chain_bytes c1)) of
           (major, minor, mic) \<Rightarrow>
             if major \<noteq> GSS_S_COMPLETE then (errno_of_int minor, c1, Some len)
             else
               let c2 = rpc_gss_prepend_32 c1 (of_nat length');
                   micbuf = \<lparr>m_lead = 0,
                             m_bytes = htonl_bytes (of_nat (length mic)) @ mic @ xdrpad (length mic)\<rparr>
               in (None, c2 @ [micbuf], Some len))"

text \<open>
  \<open>rpc_gss_priv_data_create\<close>: the chain is the length of the wrap token, the token,
  and in an mbuf of its own the padding, when there is any.
\<close>

definition rpc_gss_priv_data_create ::
  "gss_crypto \<Rightarrow> mchain \<Rightarrow> u32 \<Rightarrow> errno option \<times> mchain \<times> nat option" where
  "rpc_gss_priv_data_create gc c seqnum =
     (let c1 = rpc_gss_data_create c seqnum;
          length0 = nfs_gss_mchain_length c1
      in case gc_wrap gc (take length0 (chain_bytes c1)) of
           (major, minor, tok) \<Rightarrow>
             if major \<noteq> GSS_S_COMPLETE then (errno_of_int minor, c1, None)
             else
               let len = nfs_gss_mchain_length tok;
                   pad = nfsm_pad len;
                   c2 = rpc_gss_prepend_32 tok (of_nat len)
               in if pad \<noteq> 0
                  then (None, c2 @ [\<lparr>m_lead = 0, m_bytes = replicate pad 0\<rparr>], Some len)
                  else (None, c2, Some len))"

text \<open>
  The second loop of \<open>rpc_gss_integ_data_restore\<close>: the mbufs that hold the next
  \<open>len\<close> bytes, or \<open>EBADRPC\<close> when an mbuf holds more than is left.
\<close>

fun integ_restore_walk :: "mchain \<Rightarrow> nat \<Rightarrow> errno + mchain" where
  "integ_restore_walk [] len = Inr []"
| "integ_restore_walk (m # ms) len =
     (if len = 0 then Inr []
      else if mbuf_len m \<le> len
      then (case integ_restore_walk ms (len - mbuf_len m) of
              Inl e \<Rightarrow> Inl e
            | Inr kept \<Rightarrow> Inr (m # kept))
      else Inl EBADRPC)"

text \<open>
  \<open>rpc_gss_integ_data_restore\<close>: the length and the sequence number are cut off,
  the empty mbufs in front are freed, and the chain is cut after the mbuf that
  \<open>tail\<close> points to; \<open>tail\<close> is set when the second loop ran at least once.
\<close>

definition rpc_gss_integ_data_restore :: "mchain \<Rightarrow> nat \<Rightarrow> errno option \<times> mchain" where
  "rpc_gss_integ_data_restore c len =
     (let c1 = dropWhile (\<lambda>m. mbuf_len m = 0) (mbuf_adj c 8)
      in case integ_restore_walk c1 len of
           Inl e \<Rightarrow> (Some e, c1)
         | Inr kept \<Rightarrow> if kept \<noteq> [] then (None, kept) else (None, c1))"

text \<open>
  The loop of \<open>rpc_gss_priv_data_restore\<close> that looks for the padding: the mbufs
  it went over, the bytes they hold, and the rest of the chain.
\<close>

fun priv_restore_walk :: "mchain \<Rightarrow> nat \<Rightarrow> nat \<Rightarrow> mchain \<times> nat \<times> mchain" where
  "priv_restore_walk [] length0 len = ([], length0, [])"
| "priv_restore_walk (m # ms) length0 len =
     (if length0 < len
      then (case priv_restore_walk ms (length0 + mbuf_len m) len of
              (kept, l, rest) \<Rightarrow> (m # kept, l, rest))
      else ([], length0, m # ms))"

text \<open>
  \<open>rpc_gss_priv_data_restore\<close>: the length is cut off, the padding is dropped, the
  token is unwrapped, and the sequence number and the empty mbufs in front are
  dropped. The \<open>assert\<close> after the sequence number is dropped is left out.
\<close>

definition rpc_gss_priv_data_restore ::
  "gss_crypto \<Rightarrow> mchain \<Rightarrow> nat \<Rightarrow> errno option \<times> mchain" where
  "rpc_gss_priv_data_restore gc c len =
     (let c1 = mbuf_adj c 4;
          walk = priv_restore_walk c1 0 len;
          bad = (nfsm_pad len \<noteq> 0 \<and>
                 (fst (snd walk) \<noteq> len \<or> snd (snd walk) = [] \<or> fst walk = []));
          c2 = (if nfsm_pad len \<noteq> 0 then fst walk else c1)
      in if bad then (Some EBADRPC, c1)
         else
           (case gc_unwrap gc (take len (chain_bytes c2)) of
              (major, minor, plain) \<Rightarrow>
                if major \<noteq> GSS_S_COMPLETE then (errno_of_int minor, c2)
                else (None, dropWhile (\<lambda>m. mbuf_len m = 0) (mbuf_adj plain 4))))"

section \<open>Example states\<close>

text \<open>
  A complete context with a window of 4 whose last sequence number is 999, and the
  same context after the numbers 1000 to 1003 were taken.
\<close>

definition ex_window_ctx :: nfs_gss_clnt_ctx where
  "ex_window_ctx =
     \<lparr>gss_clnt_addr = 1, gss_clnt_cred = \<lparr>cr_asid = 100, cr_uid = 501\<rparr>,
      gss_clnt_principal = None, gss_clnt_prinnt = 0, gss_clnt_flags = {GSS_CTX_COMPLETE},
      gss_clnt_refcnt = 1, gss_clnt_thread = None, gss_clnt_proc = RPCSEC_GSS_DATA,
      gss_clnt_service = RPCSEC_GSS_SVC_NONE, gss_clnt_seqnum = 999, gss_clnt_seqwin = 4,
      gss_clnt_seqbits = [0], gss_clnt_nctime = 0, gss_clnt_major = 0, gss_clnt_minor = 0,
      gss_clnt_verf = None, gss_clnt_ctx_id = Some 7, gss_clnt_gssd_flags = {},
      gss_clnt_token = [], gss_clnt_handle = [], gss_clnt_svcname = None\<rparr>"

definition ex_window_full :: nfs_gss_clnt_ctx where
  "ex_window_full = ex_window_ctx\<lparr>gss_clnt_seqnum := 1003, gss_clnt_seqbits := [15]\<rparr>"



text \<open>
  Constants as in the kernel headers of the time: a negative cache entry is kept for
  3 seconds and the cache holds 16 entries.
\<close>

definition ex_constants :: gss_constants where
  "ex_constants =
     \<lparr>GSS_NEG_CACHE_TO = 3, GSS_MAX_NEG_CACHE_ENTRIES = 16, GSS_MAX_CTX_HANDLE_LEN = 256,
      GSS_MAX_TOKEN_LEN = 65536, NFS_TRYLATERDEL = 4, NFS_MAXPACKET = 1048576\<rparr>"

text \<open>
  An invalid context of session \<open>asid\<close> at address \<open>a\<close> that nobody refers to and that
  entered the negative cache at time \<open>t\<close>, and a mount whose list is 17 such contexts,
  all of them in the negative cache since time 10.
\<close>

definition ex_dead_ctx :: "nat \<Rightarrow> int \<Rightarrow> int \<Rightarrow> nfs_gss_clnt_ctx" where
  "ex_dead_ctx a asid t =
     (ctx_zero a \<lparr>cr_asid = asid, cr_uid = 501\<rparr>)
       \<lparr>gss_clnt_flags := {GSS_CTX_INVAL}, gss_clnt_nctime := t\<rparr>"

definition ex_etype :: nfs_etype where
  "ex_etype = \<lparr>et_count = 3, et_selected = 3, et_etypes = [18, 17, 16]\<rparr>"

definition ex_reap_mount :: nfsmount where
  "ex_reap_mount =
     \<lparr>nm_gsscl = map (\<lambda>a. ex_dead_ctx a (int a) 10) [1..<18], nm_ncentries = 17,
      nm_etype = ex_etype, nm_retry = 2, nm_soft = False, nm_intr = False, nm_gone = False\<rparr>"

text \<open>
  A mount with a valid context of session 200 and, behind it, an invalid context of
  session 100 that is in the negative cache since time 100; a request of session 100.
\<close>

definition ex_neg_mount :: nfsmount where
  "ex_neg_mount =
     \<lparr>nm_gsscl = [ex_window_ctx\<lparr>gss_clnt_addr := 2, gss_clnt_cred := \<lparr>cr_asid = 200, cr_uid = 502\<rparr>\<rparr>,
                  ex_dead_ctx 3 100 100],
      nm_ncentries = 1, nm_etype = ex_etype, nm_retry = 2, nm_soft = False, nm_intr = False,
      nm_gone = False\<rparr>"

definition ex_req :: nfsreq where
  "ex_req = \<lparr>r_cred = \<lparr>cr_asid = 100, cr_uid = 501\<rparr>, r_auth = RPCAUTH_KRB5I, r_gss_ctx = None,
             r_gss_seqlist = [], r_nointr = False, r_soft = False\<rparr>"

definition ex_find_env :: find_env where
  "ex_find_env =
     \<lparr>fe_newaddr = 9, fe_thread = 1, fe_port_ok = True, fe_mnt_ref_ok = True,
      fe_mnt_rele_ok = True, fe_root_steals = False, fe_attempts = []\<rparr>"

definition ex_verf_env :: verf_env where
  "ex_verf_env =
     \<lparr>ve_verify_mic = (\<lambda>h msg mic. if mic = msg then GSS_S_COMPLETE else 393216),
      ve_alloc_ok = True, ve_results = (\<lambda>cp seq st. st)\<rparr>"

text \<open>A new context that its creator is setting up.\<close>

definition ex_new_ctx :: nfs_gss_clnt_ctx where
  "ex_new_ctx =
     (ctx_zero 9 \<lparr>cr_asid = 100, cr_uid = 501\<rparr>)\<lparr>gss_clnt_thread := Some 1, gss_clnt_refcnt := 1\<rparr>"

text \<open>
  A negotiation that is over after one round: gssd and the server both answer
  \<open>GSS_S_COMPLETE\<close>, the server grants a window of 4 and its verifier is the MIC of
  that window (the example provider takes the message itself for its MIC). In the
  second environment the verifier is the MIC of another value.
\<close>

definition ex_gssd_complete :: gssd_reply where
  "ex_gssd_complete =
     \<lparr>gr_port_ok = True, gr_kr_ok = True, gr_major = GSS_S_COMPLETE, gr_minor = 0,
      gr_lucid = LucidOk 7 18, gr_otoken = [1, 2, 3], gr_otoken_fail = None\<rparr>"

definition ex_server_complete :: server_reply where
  "ex_server_complete =
     \<lparr>sr_error = None, sr_verf = Some [0, 0, 0, 4], sr_handle = [9], sr_major = GSS_S_COMPLETE,
      sr_minor = 0, sr_seqwin = 4, sr_token = [5, 6]\<rparr>"

definition ex_init_env :: init_env where
  "ex_init_env =
     \<lparr>ie_svcname = Some [110, 102, 115, 64, 115],
      ie_script = [(ex_gssd_complete, ex_server_complete)],
      ie_verify_mic = (\<lambda>h msg mic. if mic = msg then (GSS_S_COMPLETE, 0) else (393216, 0)),
      ie_random = 996, ie_alloc_ok = True\<rparr>"

definition ex_init_env_badverf :: init_env where
  "ex_init_env_badverf =
     ex_init_env\<lparr>ie_script := [(ex_gssd_complete, ex_server_complete\<lparr>sr_verf := Some [0, 0, 0, 5]\<rparr>)]\<rparr>"

text \<open>
  A negotiation in which the server answers every round with a status that is
  neither complete nor continuable, on a mount with three encryption types.
\<close>

definition ex_gssd_continue :: gssd_reply where
  "ex_gssd_continue =
     \<lparr>gr_port_ok = True, gr_kr_ok = True, gr_major = GSS_S_CONTINUE_NEEDED, gr_minor = 0,
      gr_lucid = LucidNone, gr_otoken = [1, 2, 3], gr_otoken_fail = None\<rparr>"

definition ex_server_reject :: server_reply where
  "ex_server_reject =
     \<lparr>sr_error = None, sr_verf = None, sr_handle = [9], sr_major = 851968,
      sr_minor = 0, sr_seqwin = 0, sr_token = [5, 6]\<rparr>"




text \<open>
  The new context as the negotiation that is over after one round leaves it, before
  it is taken from the thread that set it up.
\<close>

definition ex_complete_ctx :: nfs_gss_clnt_ctx where
  "ex_complete_ctx =
     ex_new_ctx\<lparr>gss_clnt_flags := {GSS_CTX_COMPLETE}, gss_clnt_proc := RPCSEC_GSS_DATA,
                gss_clnt_service := RPCSEC_GSS_SVC_INTEGRITY,
                gss_clnt_seqnum := 1000, gss_clnt_seqwin := 4, gss_clnt_seqbits := [0],
                gss_clnt_ctx_id := Some 7, gss_clnt_gssd_flags := {GSSD_LUCID_CONTEXT},
                gss_clnt_token := [5, 6], gss_clnt_handle := [9],
                gss_clnt_svcname := Some [110, 102, 115, 64, 115]\<rparr>"

text \<open>
  Attempts of \<open>nfs_gss_clnt_ctx_init_retry\<close>. In the first the context has no port to
  gssd and cannot get one (gssd is not there for the moment); the second is the
  negotiation that is over after one round, which succeeds. In the third the negotiation goes as in the
  second, and the provider's MIC check reports \<open>GSS_S_COMPLETE\<close> with the minor status
  81. The clock stands at 500 when a wait begins and moves on by 30 seconds at a
  time.
\<close>

definition ex_init_env_gssd_down :: init_env where
  "ex_init_env_gssd_down =
     ex_init_env\<lparr>ie_script := [(ex_gssd_complete\<lparr>gr_port_ok := False\<rparr>, ex_server_complete)]\<rparr>"

definition ex_attempt_gssd_down :: retry_attempt where
  "ex_attempt_gssd_down =
     \<lparr>ra_env = ex_init_env_gssd_down, ra_now = 500,
      ra_ticks = [(None, 530), (None, 560), (None, 590)]\<rparr>"

definition ex_attempt_ok :: retry_attempt where
  "ex_attempt_ok = \<lparr>ra_env = ex_init_env, ra_now = 900, ra_ticks = []\<rparr>"

definition ex_init_env_minor81 :: init_env where
  "ex_init_env_minor81 =
     ex_init_env\<lparr>ie_verify_mic :=
       (\<lambda>h msg mic. if mic = msg then (GSS_S_COMPLETE, 81) else (393216, 0))\<rparr>"

definition ex_attempt_needauth :: retry_attempt where
  "ex_attempt_needauth =
     \<lparr>ra_env = ex_init_env_minor81, ra_now = 500,
      ra_ticks = [(None, 530), (None, 560), (None, 590)]\<rparr>"

text \<open>
  A cryptographic provider for the examples: the MIC of a message is five bytes, the
  last of which is the length of the message; the wrap token of a message is two
  bytes and the message with every bit inverted, and unwrapping returns the message
  with its first four bytes, the sequence number, in an mbuf of their own. The call
  arguments of a null procedure as \<open>nfsm_chain_build_alloc_init\<close> leaves them: one
  mbuf without data; arguments of 1 byte; and arguments of 13 bytes in two mbufs.
\<close>

definition ex_crypto :: gss_crypto where
  "ex_crypto =
     \<lparr>gc_get_mic = (\<lambda>bs. (GSS_S_COMPLETE, 0, [170, 187, 204, 221, of_nat (length bs)])),
      gc_wrap = (\<lambda>bs. (GSS_S_COMPLETE, 0,
                   [\<lparr>m_lead = 0, m_bytes = 1 # 2 # map (\<lambda>b. NOT b) bs\<rparr>])),
      gc_unwrap = (\<lambda>bs. (GSS_S_COMPLETE, 0,
                   [\<lparr>m_lead = 0, m_bytes = take 4 (map (\<lambda>b. NOT b) (drop 2 bs))\<rparr>,
                    \<lparr>m_lead = 0, m_bytes = drop 4 (map (\<lambda>b. NOT b) (drop 2 bs))\<rparr>]))\<rparr>"

definition ex_args_0 :: mchain where
  "ex_args_0 = [\<lparr>m_lead = 0, m_bytes = []\<rparr>]"

definition ex_args_1 :: mchain where
  "ex_args_1 = [\<lparr>m_lead = 0, m_bytes = [42]\<rparr>]"

definition ex_args_13 :: mchain where
  "ex_args_13 = [\<lparr>m_lead = 0, m_bytes = [1, 2, 3, 4, 5, 6, 7, 8]\<rparr>,
                 \<lparr>m_lead = 0, m_bytes = [9, 10, 11, 12, 13]\<rparr>]"

section \<open>Properties of the sequence window\<close>

lemma idx_split: "j div 32 = i div 32 \<Longrightarrow> (j mod 32 = (i::nat) mod 32) = (j = i)"
  by (metis div_mult_mod_eq)


lemma bit_reset_word: "k < 32 \<Longrightarrow> bit ((w::u32) AND NOT (2 ^ k)) m = (bit w m \<and> m \<noteq> k)"
  by (auto simp add: bit_simps dest: bit_imp_le_length)


lemma win_getbit_resetbit:
  "win_index_ok bits i \<Longrightarrow> win_getbit (win_resetbit bits i) j = (j \<noteq> i \<and> win_getbit bits j)"
proof (cases "j div 32 = i div 32")
  case True
  assume "win_index_ok bits i"
  with True idx_split [OF True] show ?thesis
    by (auto simp add: win_getbit_def win_resetbit_def win_index_ok_def bit_reset_word)
next
  case False
  assume "win_index_ok bits i"
  with False show ?thesis
    by (auto simp add: win_getbit_def win_resetbit_def win_index_ok_def)
qed

lemma win_index_ok_setbit [simp]: "win_index_ok (win_setbit bits i) j = win_index_ok bits j"
  by (simp add: win_index_ok_def win_setbit_def)

lemma win_index_ok_resetbit [simp]: "win_index_ok (win_resetbit bits i) j = win_index_ok bits j"
  by (simp add: win_index_ok_def win_resetbit_def)







lemma win_index_ok_mod:
  "w \<noteq> 0 \<Longrightarrow> unat (w::u32) \<le> 32 * length bits \<Longrightarrow> win_index_ok bits (unat (x mod w))"
proof -
  assume w: "w \<noteq> 0" and l: "unat w \<le> 32 * length bits"
  have "0 < unat w" using w by (simp add: unat_gt_0)
  then have "unat (x mod w) < unat w" by (simp add: unat_mod)
  with l have "unat (x mod w) < 32 * length bits" by simp
  then show ?thesis by (simp add: win_index_ok_def less_mult_imp_div_less mult.commute)
qed






text \<open>
  Claim C2. For a complete context and a request whose newest sequence number is
  \<open>seq\<close>, \<open>nfs_gss_clnt_rpcdone\<close> clears the bit at \<open>seq mod window\<close> exactly when
  \<open>seq > current - window\<close> (in 32-bit arithmetic) and leaves the bitmap as it is
  otherwise; in both cases a sleeper that set \<open>GSS_NEEDSEQ\<close> is woken and the flag
  is cleared.
\<close>

theorem rpcdone_clears_only_live_window:
  assumes compl: "GSS_CTX_COMPLETE \<in> gss_clnt_flags cp"
    and w0: "gss_clnt_seqwin cp \<noteq> 0"
    and alloc: "unat (gss_clnt_seqwin cp) \<le> 32 * length (gss_clnt_seqbits cp)"
  shows
    "let live = (seq > gss_clnt_seqnum cp - gss_clnt_seqwin cp);
         slot = unat (seq mod gss_clnt_seqwin cp);
         bits = (if live then win_resetbit (gss_clnt_seqbits cp) slot else gss_clnt_seqbits cp)
     in nfs_gss_clnt_rpcdone m (Some cp) (seq # older) =
          Inr (Some (cp\<lparr>gss_clnt_seqbits := bits,
                         gss_clnt_flags := gss_clnt_flags cp - {GSS_NEEDSEQ}\<rparr>),
               take m (seq # older), GSS_NEEDSEQ \<in> gss_clnt_flags cp) \<and>
        (\<forall>j. win_getbit bits j =
               (win_getbit (gss_clnt_seqbits cp) j \<and> \<not> (live \<and> j = slot)))"
proof -
  have ok: "win_index_ok (gss_clnt_seqbits cp) (unat (seq mod gss_clnt_seqwin cp))"
    using w0 alloc by (rule win_index_ok_mod)
  show ?thesis
    using compl w0 ok
    by (auto simp add: nfs_gss_clnt_rpcdone_def Let_def win_getbit_resetbit)
qed

theorem rpcdone_clears_only_live_window_witness:
  "nfs_gss_clnt_rpcdone 8
       (Some (ex_window_full\<lparr>gss_clnt_flags := {GSS_NEEDSEQ, GSS_CTX_COMPLETE}\<rparr>)) [1002, 998] =
     Inr (Some (ex_window_full\<lparr>gss_clnt_seqbits := [11]\<rparr>), [1002, 998], True) \<and>
   nfs_gss_clnt_rpcdone 8 (Some ex_window_full) [999] =
     Inr (Some ex_window_full, [999], False)"
proof -
  have a: "GSS_CTX_COMPLETE \<in>
      gss_clnt_flags (ex_window_full\<lparr>gss_clnt_flags := {GSS_NEEDSEQ, GSS_CTX_COMPLETE}\<rparr>)"
    by simp
  have b: "gss_clnt_seqwin (ex_window_full\<lparr>gss_clnt_flags := {GSS_NEEDSEQ, GSS_CTX_COMPLETE}\<rparr>) \<noteq> 0"
    by (simp add: ex_window_full_def ex_window_ctx_def)
  have c: "unat (gss_clnt_seqwin (ex_window_full\<lparr>gss_clnt_flags := {GSS_NEEDSEQ, GSS_CTX_COMPLETE}\<rparr>))
      \<le> 32 * length (gss_clnt_seqbits
            (ex_window_full\<lparr>gss_clnt_flags := {GSS_NEEDSEQ, GSS_CTX_COMPLETE}\<rparr>))"
    by (simp add: ex_window_full_def ex_window_ctx_def)
  have a': "GSS_CTX_COMPLETE \<in> gss_clnt_flags ex_window_full"
    by (simp add: ex_window_full_def ex_window_ctx_def)
  have b': "gss_clnt_seqwin ex_window_full \<noteq> 0"
    by (simp add: ex_window_full_def ex_window_ctx_def)
  have c': "unat (gss_clnt_seqwin ex_window_full) \<le> 32 * length (gss_clnt_seqbits ex_window_full)"
    by (simp add: ex_window_full_def ex_window_ctx_def)
  show ?thesis
    using rpcdone_clears_only_live_window [OF a b c, of 1002 8 "[998]"]
      rpcdone_clears_only_live_window [OF a' b' c', of 999 8 "[]"]
    by (simp add: Let_def ex_window_full_def ex_window_ctx_def win_resetbit_def insert_commute
        insert_Diff_if)
qed

section \<open>Properties of the reference count\<close>

text \<open>
  Claim C8. From a context whose reference count is not negative,
  \<open>nfs_gss_clnt_ctx_ref\<close> adds one and \<open>nfs_gss_clnt_ctx_unref\<close> takes one away, and
  the count they leave is not negative either; the release that would take the count
  below zero does not return a context: it ends in \<open>panic\<close>.
\<close>

theorem refcnt_never_negative:
  assumes "0 \<le> gss_clnt_refcnt cp"
  shows "gss_clnt_refcnt (nfs_gss_clnt_ctx_ref cp) = gss_clnt_refcnt cp + 1 \<and>
         0 \<le> gss_clnt_refcnt (nfs_gss_clnt_ctx_ref cp) \<and>
         (case ctx_unref_locked now rele_ok cp of
            Inl f \<Rightarrow> f = Panic \<and> gss_clnt_refcnt cp = 0
          | Inr (cp', d, oc, nc) \<Rightarrow>
              gss_clnt_refcnt cp' = gss_clnt_refcnt cp - 1 \<and> 0 \<le> gss_clnt_refcnt cp')"
  using assms
  by (auto simp add: nfs_gss_clnt_ctx_ref_def ctx_unref_locked_def Let_def split: if_splits)

theorem refcnt_never_negative_witness:
  "gss_clnt_refcnt (nfs_gss_clnt_ctx_ref ex_window_ctx) = 2 \<and>
   ctx_unref_locked 50 True ex_window_ctx =
     Inr (ex_window_ctx\<lparr>gss_clnt_refcnt := 0\<rparr>, False, False, False) \<and>
   ctx_unref_locked 50 True (ex_window_ctx\<lparr>gss_clnt_refcnt := 0\<rparr>) = Inl Panic"
proof -
  have a: "0 \<le> gss_clnt_refcnt ex_window_ctx" by (simp add: ex_window_ctx_def)
  have b: "0 \<le> gss_clnt_refcnt (ex_window_ctx\<lparr>gss_clnt_refcnt := 0\<rparr>)" by simp
  have c: "ctx_unref_locked 50 True ex_window_ctx =
     Inr (ex_window_ctx\<lparr>gss_clnt_refcnt := 0\<rparr>, False, False, False)"
    by (simp add: ex_window_ctx_def ctx_unref_locked_def Let_def)
  have d: "ctx_unref_locked 50 True (ex_window_ctx\<lparr>gss_clnt_refcnt := 0\<rparr>) = Inl Panic"
    by (simp add: ex_window_ctx_def ctx_unref_locked_def Let_def)
  have e: "gss_clnt_refcnt (nfs_gss_clnt_ctx_ref ex_window_ctx) = 2"
    using refcnt_never_negative [OF a, of 50 True] by (simp add: ex_window_ctx_def)
  from c d e refcnt_never_negative [OF b, of 50 True] show ?thesis by simp
qed

section \<open>Properties of the negotiation\<close>

lemma errno_of_int_simps [simp]:
  "errno_of_int 0 = None" "errno_of_int 81 = Some ENEEDAUTH"
  by (simp_all add: errno_of_int_def)

lemma errno_of_int_needauth: "(errno_of_int m = Some ENEEDAUTH) = (m = 81)"
  by (simp add: errno_of_int_def)

lemma gss_status_distinct [simp]:
  "GSS_S_COMPLETE \<noteq> GSS_S_CONTINUE_NEEDED" "GSS_S_CONTINUE_NEEDED \<noteq> GSS_S_COMPLETE"
  by (simp_all add: GSS_S_COMPLETE_def GSS_S_CONTINUE_NEEDED_def)

lemma gssd_upcall_post_ok:
  "gssd_upcall_post nmp cp r g = (None, cp2, nmp2, ev) \<Longrightarrow>
     ev = [UPCALL r (upcall_etypes (nm_etype nmp) r) (gss_clnt_major cp2)] \<and>
     gss_clnt_major cp2 = gr_major g \<and>
     gss_clnt_flags cp2 = gss_clnt_flags cp \<and> gss_clnt_proc cp2 = gss_clnt_proc cp"
  by (auto simp add: gssd_upcall_post_def gssd_upcall_out_def Let_def
      split: if_splits lucid_result.splits option.splits)

lemma gssd_upcall_post_flags:
  "gssd_upcall_post nmp cp r g = (e, cp2, nmp2, ev) \<Longrightarrow>
     gss_clnt_flags cp2 = gss_clnt_flags cp \<and> gss_clnt_proc cp2 = gss_clnt_proc cp"
  by (auto simp add: gssd_upcall_post_def gssd_upcall_out_def Let_def
      split: if_splits lucid_result.splits option.splits)

lemma callserver_ok:
  "nfs_gss_clnt_ctx_callserver k nmp cp s = (None, cp3, ev3) \<Longrightarrow>
     ev3 = [CALLSERVER (gss_clnt_major cp3)] \<and> gss_clnt_major cp3 = sr_major s"
  by (auto simp add: nfs_gss_clnt_ctx_callserver_def Let_def split: if_splits option.splits)

lemma callserver_flags:
  "nfs_gss_clnt_ctx_callserver k nmp cp s = (e, cp3, ev3) \<Longrightarrow>
     gss_clnt_flags cp3 = gss_clnt_flags cp \<and> gss_clnt_proc cp3 = gss_clnt_proc cp"
  by (auto simp add: nfs_gss_clnt_ctx_callserver_def Let_def split: if_splits option.splits)

lemma said_complete_simps [simp]:
  "gssd_said_complete [] = False"
  "gssd_said_complete (UPCALL r es m # evs) = (m = GSS_S_COMPLETE \<or> gssd_said_complete evs)"
  "gssd_said_complete (CALLSERVER m # evs) = gssd_said_complete evs"
  "gssd_said_complete (a @ b) = (gssd_said_complete a \<or> gssd_said_complete b)"
  "server_said_complete [] = False"
  "server_said_complete (UPCALL r es m # evs) = server_said_complete evs"
  "server_said_complete (CALLSERVER m # evs) = (m = GSS_S_COMPLETE \<or> server_said_complete evs)"
  "server_said_complete (a @ b) = (server_said_complete a \<or> server_said_complete b)"
  by (simp_all add: gssd_said_complete_def server_said_complete_def)

lemma ctx_init_round_said:
  "case ctx_init_round k nmp cp r cc sc g s of
     Exit e c n ev \<Rightarrow>
       (e = None \<longrightarrow> (cc \<or> gssd_said_complete ev) \<and> (sc \<or> server_said_complete ev)) \<and>
       gss_clnt_flags c = gss_clnt_flags cp
   | Again c r' cc' sc' n ev \<Rightarrow>
       (cc' \<longrightarrow> cc \<or> gssd_said_complete ev) \<and> (sc' \<longrightarrow> sc \<or> server_said_complete ev) \<and>
       gss_clnt_flags c = gss_clnt_flags cp"
proof -
  obtain e2 cp2 nmp2 ev2 where u: "gssd_upcall_post nmp cp r g = (e2, cp2, nmp2, ev2)"
    by (cases "gssd_upcall_post nmp cp r g") auto
  note uf = gssd_upcall_post_flags [OF u]
  show ?thesis
  proof (cases e2)
    case (Some e)
    with u uf show ?thesis by (simp add: ctx_init_round_def)
  next
    case None
    note uo = gssd_upcall_post_ok [OF u [unfolded None]]
    obtain e3 cp3 ev3 where c: "nfs_gss_clnt_ctx_callserver k nmp2 cp2 s = (e3, cp3, ev3)"
      by (cases "nfs_gss_clnt_ctx_callserver k nmp2 cp2 s") auto
    note cf = callserver_flags [OF c]
    show ?thesis
    proof (cases e3)
      case (Some e)
      with u None c uo cf show ?thesis
        by (simp add: ctx_init_round_def Let_def gssd_restart_def)
    next
      case None3: None
      note co = callserver_ok [OF c [unfolded None3]]
      from u None c None3 uo cf co show ?thesis
        by (simp add: ctx_init_round_def Let_def gssd_restart_def)
    qed
  qed
qed

lemma ctx_init_round_break:
  assumes "ctx_init_round k nmp cp r cc sc g s = Exit None cp' nmp' ev"
  shows "(cc \<or> gssd_said_complete ev) \<and> (sc \<or> server_said_complete ev) \<and>
         gss_clnt_flags cp' = gss_clnt_flags cp"
  using ctx_init_round_said [where k = k and nmp = nmp and cp = cp and r = r and cc = cc
      and sc = sc and g = g and s = s] assms by simp

lemma ctx_init_round_again:
  assumes "ctx_init_round k nmp cp r cc sc g s = Again cp' r' cc' sc' nmp' ev"
  shows "(cc' \<longrightarrow> cc \<or> gssd_said_complete ev) \<and>
         (sc' \<longrightarrow> sc \<or> server_said_complete ev) \<and>
         gss_clnt_flags cp' = gss_clnt_flags cp"
  using ctx_init_round_said [where k = k and nmp = nmp and cp = cp and r = r and cc = cc
      and sc = sc and g = g and s = s] assms by simp

lemma add_events_Some:
  "add_events ev r = Some (e, cp', nmp', evs) \<Longrightarrow>
     \<exists>t. r = Some (e, cp', nmp', t) \<and> evs = ev @ t"
  by (auto simp add: add_events_def)

lemma gssd_upcall_pre_flags:
  "gssd_upcall_pre nmp cp r = (e, cp1) \<Longrightarrow> gss_clnt_flags cp1 = gss_clnt_flags cp"
  by (auto simp add: gssd_upcall_pre_def Let_def split: if_splits)

lemma ctx_init_loop_said:
  "ctx_init_loop k nmp cp r cc sc script = Some (e, cp', nmp', evs) \<Longrightarrow>
     gss_clnt_flags cp' = gss_clnt_flags cp \<and>
     (e = None \<longrightarrow> (cc \<or> gssd_said_complete evs) \<and> (sc \<or> server_said_complete evs))"
proof (induction script arbitrary: nmp cp r cc sc evs)
  case Nil
  obtain e1 cp1 where p: "gssd_upcall_pre nmp cp r = (e1, cp1)"
    by (cases "gssd_upcall_pre nmp cp r")
  with Nil gssd_upcall_pre_flags [OF p] show ?case by (auto split: option.splits)
next
  case (Cons gs rest)
  obtain g s where gs: "gs = (g, s)" by (cases gs)
  obtain e1 cp1 where p: "gssd_upcall_pre nmp cp r = (e1, cp1)"
    by (cases "gssd_upcall_pre nmp cp r")
  note pf = gssd_upcall_pre_flags [OF p]
  show ?case
  proof (cases e1)
    case (Some err)
    with Cons.prems gs p pf show ?thesis by auto
  next
    case None
    note e1 = this
    show ?thesis
    proof (cases "ctx_init_round k nmp cp1 r cc sc g s")
      case (Exit e' c n ev)
      with Cons.prems gs p e1 have "e' = e" "c = cp'" "ev = evs" by auto
      with Exit ctx_init_round_said [where k = k and nmp = nmp and cp = cp1 and r = r and cc = cc
          and sc = sc and g = g and s = s] pf
      show ?thesis by simp
    next
      case (Again c r' cc' sc' n ev)
      with Cons.prems gs p e1 have
        "add_events ev (ctx_init_loop k n c r' cc' sc' rest) = Some (e, cp', nmp', evs)"
        by simp
      from add_events_Some [OF this] obtain t where
        rec: "ctx_init_loop k n c r' cc' sc' rest = Some (e, cp', nmp', t)" and
        evs: "evs = ev @ t" by blast
      note ih = Cons.IH [OF rec]
      note ra = ctx_init_round_again [OF Again]
      from ih ra evs pf show ?thesis by auto
    qed
  qed
qed

lemma ctx_init_complete_flags:
  "ctx_init_complete env cp = (e, cp') \<Longrightarrow>
     gss_clnt_flags cp' = insert GSS_CTX_COMPLETE (gss_clnt_flags cp) \<and>
     gss_clnt_seqwin cp' = gss_clnt_seqwin cp \<and>
     (e = None \<longrightarrow> window_verified env cp) \<and>
     (\<not> window_verified env cp \<longrightarrow> e = Some NFSERR_EAUTH)"
  by (auto simp add: ctx_init_complete_def window_verified_def Let_def split: if_splits)

lemma ctx_init_out_flags:
  "ctx_init_out e cp = (e', cp', w) \<Longrightarrow>
     e' = e \<and>
     (GSS_CTX_COMPLETE \<in> gss_clnt_flags cp') = (GSS_CTX_COMPLETE \<in> gss_clnt_flags cp) \<and>
     gss_clnt_seqwin cp' = gss_clnt_seqwin cp \<and>
     (e \<noteq> None \<longrightarrow> e \<noteq> Some ENEEDAUTH \<longrightarrow> GSS_CTX_INVAL \<in> gss_clnt_flags cp') \<and>
     (e = None \<longrightarrow> (GSS_CTX_INVAL \<in> gss_clnt_flags cp') = (GSS_CTX_INVAL \<in> gss_clnt_flags cp))"
  by (auto simp add: ctx_init_out_def Let_def split: if_splits)

text \<open>
  Claim C4, amended. In a context setup that returns, on a context that was not
  complete before: the context is marked \<open>GSS_CTX_COMPLETE\<close> only when gssd has
  answered an upcall and the server a null call with \<open>GSS_S_COMPLETE\<close>; the mark is
  set when the loop is left, before the saved verifier is checked; the setup
  returns 0 only when the saved verifier was verified as a MIC over the sequence
  window the server granted, and then the context is complete and no more invalid
  than before; and when that check fails the setup returns \<open>NFSERR_EAUTH\<close> and the
  context is marked \<open>GSS_CTX_INVAL\<close>, next to \<open>GSS_CTX_COMPLETE\<close>.
\<close>

theorem ctx_init_complete_after_both_and_verifier:
  assumes run: "nfs_gss_clnt_ctx_init k env nmp req cp = Some ((e, cp', w), nmp', evs)"
    and new: "GSS_CTX_COMPLETE \<notin> gss_clnt_flags cp"
  shows
    "(GSS_CTX_COMPLETE \<in> gss_clnt_flags cp' \<longrightarrow>
        gssd_said_complete evs \<and> server_said_complete evs) \<and>
     (e = None \<longrightarrow>
        GSS_CTX_COMPLETE \<in> gss_clnt_flags cp' \<and>
        (GSS_CTX_INVAL \<in> gss_clnt_flags cp') = (GSS_CTX_INVAL \<in> gss_clnt_flags cp) \<and>
        (\<exists>cpl. ctx_init_loop k nmp (ctx_init_start env req cp) 0 False False (ie_script env) =
                  Some (None, cpl, nmp', evs) \<and>
               window_verified env cpl \<and> gss_clnt_seqwin cp' = gss_clnt_seqwin cpl)) \<and>
     (\<forall>cpl. ctx_init_loop k nmp (ctx_init_start env req cp) 0 False False (ie_script env) =
                  Some (None, cpl, nmp', evs) \<longrightarrow>
            \<not> window_verified env cpl \<longrightarrow>
            e = Some NFSERR_EAUTH \<and> GSS_CTX_INVAL \<in> gss_clnt_flags cp' \<and>
            GSS_CTX_COMPLETE \<in> gss_clnt_flags cp')"
proof (cases "gss_clnt_svcname cp = None \<and> ie_svcname env = None")
  case True
  with run have "(e, cp', w) = ctx_init_out (Some NFSERR_EAUTH) (cp\<lparr>gss_clnt_svcname := None\<rparr>)"
    and evs: "evs = []" and "nmp' = nmp"
    by (auto simp add: nfs_gss_clnt_ctx_init_def)
  then have o: "ctx_init_out (Some NFSERR_EAUTH) (cp\<lparr>gss_clnt_svcname := None\<rparr>) = (e, cp', w)"
    by simp
  from ctx_init_out_flags [OF o] new have e: "e = Some NFSERR_EAUTH"
    and nc: "GSS_CTX_COMPLETE \<notin> gss_clnt_flags cp'" by auto
  have "ctx_init_loop k nmp (ctx_init_start env req cp) 0 False False (ie_script env) \<noteq>
      Some (None, cpl, nmp', evs)" for cpl
  proof
    assume "ctx_init_loop k nmp (ctx_init_start env req cp) 0 False False (ie_script env) =
      Some (None, cpl, nmp', evs)"
    from ctx_init_loop_said [OF this] evs show False by simp
  qed
  with e nc show ?thesis by simp
next
  case False
  then have svc: "\<not> (gss_clnt_svcname cp = None \<and> ie_svcname env = None)" .
  have start_flags: "gss_clnt_flags (ctx_init_start env req cp) = gss_clnt_flags cp"
    by (simp add: ctx_init_start_def)
  from run svc obtain el cpl nl where
    loop: "ctx_init_loop k nmp (ctx_init_start env req cp) 0 False False (ie_script env) =
      Some (el, cpl, nl, evs)"
    by (auto simp add: nfs_gss_clnt_ctx_init_def split: if_splits option.splits prod.splits)
  note ls = ctx_init_loop_said [OF loop]
  show ?thesis
  proof (cases el)
    case (Some err)
    with run svc loop have o: "ctx_init_out (Some err) cpl = (e, cp', w)"
      by (auto simp add: nfs_gss_clnt_ctx_init_def split: if_splits)
    from ctx_init_out_flags [OF o] ls start_flags new
    have "e = Some err" "GSS_CTX_COMPLETE \<notin> gss_clnt_flags cp'" by auto
    with loop Some show ?thesis by simp
  next
    case None
    obtain ec cpc where c: "ctx_init_complete env cpl = (ec, cpc)"
      by (cases "ctx_init_complete env cpl")
    with run svc loop None have o: "ctx_init_out ec cpc = (e, cp', w)" and n: "nl = nmp'"
      by (auto simp add: nfs_gss_clnt_ctx_init_def split: if_splits)
    note cf = ctx_init_complete_flags [OF c]
    note of' = ctx_init_out_flags [OF o]
    from ls None have said: "gssd_said_complete evs \<and> server_said_complete evs" by simp
    have compl: "GSS_CTX_COMPLETE \<in> gss_clnt_flags cp'" using cf of' by simp
    have inval_eq: "e = None \<longrightarrow>
        (GSS_CTX_INVAL \<in> gss_clnt_flags cp') = (GSS_CTX_INVAL \<in> gss_clnt_flags cp)"
      using cf of' ls start_flags by auto
    have ver: "e = None \<longrightarrow> window_verified env cpl" using cf of' by auto
    have win: "gss_clnt_seqwin cp' = gss_clnt_seqwin cpl" using cf of' by simp
    have bad: "\<not> window_verified env cpl \<longrightarrow>
        e = Some NFSERR_EAUTH \<and> GSS_CTX_INVAL \<in> gss_clnt_flags cp'"
      using cf of' by auto
    from said compl inval_eq ver win bad loop None n show ?thesis by auto
  qed
qed

lemma ex_mount_etype:
  "nm_gone ex_neg_mount = False" "nm_etype ex_neg_mount = ex_etype"
  by (simp_all add: ex_neg_mount_def)

lemma upt_3:
  "[0..<3] = [0, 1, 2]" "[1..<3] = [1, 2]" "[2..<3] = [2]" "[3..<3] = []" "[4..<3] = []"
  by code_simp+

lemmas ex_negotiation_defs = upt_3
  ctx_init_start_def gssd_upcall_pre_def ctx_init_round_def gssd_upcall_post_def
  gssd_upcall_out_def nfs_gss_clnt_ctx_callserver_def gssd_restart_def add_events_def
  upcall_etypes_def etype_index_def ex_etype_def ex_constants_def ex_gssd_complete_def
  ex_server_complete_def ex_gssd_continue_def ex_server_reject_def ex_req_def
  service_of_auth_def ex_new_ctx_def ctx_zero_def GSS_S_COMPLETE_def GSS_S_CONTINUE_NEEDED_def

lemma ex_loop_badverf:
  "ctx_init_loop ex_constants ex_neg_mount (ctx_init_start ex_init_env_badverf ex_req ex_new_ctx)
       0 False False (ie_script ex_init_env_badverf) =
     Some (None,
           ex_new_ctx\<lparr>gss_clnt_proc := RPCSEC_GSS_INIT,
                      gss_clnt_service := RPCSEC_GSS_SVC_INTEGRITY, gss_clnt_seqwin := 4,
                      gss_clnt_verf := Some [0, 0, 0, 5], gss_clnt_ctx_id := Some 7,
                      gss_clnt_gssd_flags := {GSSD_LUCID_CONTEXT}, gss_clnt_token := [5, 6],
                      gss_clnt_handle := [9], gss_clnt_svcname := Some [110, 102, 115, 64, 115]\<rparr>,
           ex_neg_mount\<lparr>nm_etype := ex_etype\<lparr>et_selected := 0\<rparr>\<rparr>,
           [UPCALL 0 [18, 17, 16] GSS_S_COMPLETE, CALLSERVER GSS_S_COMPLETE])"
  by (simp add: ex_init_env_badverf_def ex_init_env_def ex_mount_etype ex_negotiation_defs Let_def)

text \<open>
  Claim C4 as it is stated fails: when gssd and the server have both answered
  \<open>GSS_S_COMPLETE\<close> and the saved verifier is not the MIC of the sequence window, the
  context that \<open>nfs_gss_clnt_ctx_init\<close> leaves is marked \<open>GSS_CTX_COMPLETE\<close> all the
  same (and \<open>GSS_CTX_INVAL\<close>).
\<close>

theorem ctx_init_complete_before_verifier_counterexample:
  "nfs_gss_clnt_ctx_init ex_constants ex_init_env_badverf ex_neg_mount ex_req ex_new_ctx =
     Some ((Some NFSERR_EAUTH,
            ex_new_ctx\<lparr>gss_clnt_flags := {GSS_CTX_INVAL, GSS_CTX_COMPLETE},
                       gss_clnt_thread := None, gss_clnt_proc := RPCSEC_GSS_DATA,
                       gss_clnt_service := RPCSEC_GSS_SVC_INTEGRITY, gss_clnt_seqwin := 4,
                       gss_clnt_ctx_id := Some 7, gss_clnt_gssd_flags := {GSSD_LUCID_CONTEXT},
                       gss_clnt_token := [5, 6], gss_clnt_handle := [9],
                       gss_clnt_svcname := Some [110, 102, 115, 64, 115]\<rparr>,
            False),
           ex_neg_mount\<lparr>nm_etype := ex_etype\<lparr>et_selected := 0\<rparr>\<rparr>,
           [UPCALL 0 [18, 17, 16] GSS_S_COMPLETE, CALLSERVER GSS_S_COMPLETE]) \<and>
   fst (ie_verify_mic ex_init_env_badverf (Some 7) (htonl_bytes 4) [0, 0, 0, 5]) \<noteq> GSS_S_COMPLETE"
proof -
  have v: "fst (ie_verify_mic ex_init_env_badverf (Some 7) (htonl_bytes 4) [0, 0, 0, 5]) \<noteq>
      GSS_S_COMPLETE"
    by (simp add: ex_init_env_badverf_def ex_init_env_def htonl_bytes_def GSS_S_COMPLETE_def)
  have s: "gss_clnt_svcname ex_new_ctx = None" "ie_svcname ex_init_env_badverf \<noteq> None"
    by (simp_all add: ex_new_ctx_def ctx_zero_def ex_init_env_badverf_def ex_init_env_def)
  show ?thesis
    using v s
    by (simp add: nfs_gss_clnt_ctx_init_def ex_loop_badverf ctx_init_complete_def
        ctx_init_out_def Let_def)
       (simp add: ex_new_ctx_def ctx_zero_def insert_commute)
qed

lemma ex_loop_ok:
  "ctx_init_loop ex_constants ex_neg_mount (ctx_init_start ex_init_env ex_req ex_new_ctx)
       0 False False (ie_script ex_init_env) =
     Some (None,
           ex_new_ctx\<lparr>gss_clnt_proc := RPCSEC_GSS_INIT,
                      gss_clnt_service := RPCSEC_GSS_SVC_INTEGRITY, gss_clnt_seqwin := 4,
                      gss_clnt_verf := Some [0, 0, 0, 4], gss_clnt_ctx_id := Some 7,
                      gss_clnt_gssd_flags := {GSSD_LUCID_CONTEXT}, gss_clnt_token := [5, 6],
                      gss_clnt_handle := [9], gss_clnt_svcname := Some [110, 102, 115, 64, 115]\<rparr>,
           ex_neg_mount\<lparr>nm_etype := ex_etype\<lparr>et_selected := 0\<rparr>\<rparr>,
           [UPCALL 0 [18, 17, 16] GSS_S_COMPLETE, CALLSERVER GSS_S_COMPLETE])"
  by (simp add: ex_init_env_def ex_mount_etype ex_negotiation_defs Let_def)

theorem ctx_init_complete_after_both_and_verifier_witness:
  "nfs_gss_clnt_ctx_init ex_constants ex_init_env ex_neg_mount ex_req ex_new_ctx =
     Some ((None,
            ex_new_ctx\<lparr>gss_clnt_flags := {GSS_CTX_COMPLETE},
                       gss_clnt_thread := None, gss_clnt_proc := RPCSEC_GSS_DATA,
                       gss_clnt_service := RPCSEC_GSS_SVC_INTEGRITY,
                       gss_clnt_seqnum := 1000, gss_clnt_seqwin := 4, gss_clnt_seqbits := [0],
                       gss_clnt_ctx_id := Some 7, gss_clnt_gssd_flags := {GSSD_LUCID_CONTEXT},
                       gss_clnt_token := [5, 6], gss_clnt_handle := [9],
                       gss_clnt_svcname := Some [110, 102, 115, 64, 115]\<rparr>,
            False),
           ex_neg_mount\<lparr>nm_etype := ex_etype\<lparr>et_selected := 0\<rparr>\<rparr>,
           [UPCALL 0 [18, 17, 16] GSS_S_COMPLETE, CALLSERVER GSS_S_COMPLETE]) \<and>
   gssd_said_complete [UPCALL 0 [18, 17, 16] GSS_S_COMPLETE, CALLSERVER GSS_S_COMPLETE] \<and>
   server_said_complete [UPCALL 0 [18, 17, 16] GSS_S_COMPLETE, CALLSERVER GSS_S_COMPLETE] \<and>
   window_verified ex_init_env
     (ex_new_ctx\<lparr>gss_clnt_proc := RPCSEC_GSS_INIT,
                 gss_clnt_service := RPCSEC_GSS_SVC_INTEGRITY, gss_clnt_seqwin := 4,
                 gss_clnt_verf := Some [0, 0, 0, 4], gss_clnt_ctx_id := Some 7,
                 gss_clnt_gssd_flags := {GSSD_LUCID_CONTEXT}, gss_clnt_token := [5, 6],
                 gss_clnt_handle := [9], gss_clnt_svcname := Some [110, 102, 115, 64, 115]\<rparr>)"
proof -
  have s: "gss_clnt_svcname ex_new_ctx = None" "ie_svcname ex_init_env \<noteq> None"
    by (simp_all add: ex_new_ctx_def ctx_zero_def ex_init_env_def)
  have c: "ctx_init_complete ex_init_env
     (ex_new_ctx\<lparr>gss_clnt_proc := RPCSEC_GSS_INIT,
                 gss_clnt_service := RPCSEC_GSS_SVC_INTEGRITY, gss_clnt_seqwin := 4,
                 gss_clnt_verf := Some [0, 0, 0, 4], gss_clnt_ctx_id := Some 7,
                 gss_clnt_gssd_flags := {GSSD_LUCID_CONTEXT}, gss_clnt_token := [5, 6],
                 gss_clnt_handle := [9], gss_clnt_svcname := Some [110, 102, 115, 64, 115]\<rparr>) =
     (None,
      ex_new_ctx\<lparr>gss_clnt_flags := {GSS_CTX_COMPLETE}, gss_clnt_proc := RPCSEC_GSS_DATA,
                 gss_clnt_service := RPCSEC_GSS_SVC_INTEGRITY,
                 gss_clnt_seqnum := 1000, gss_clnt_seqwin := 4, gss_clnt_seqbits := [0],
                 gss_clnt_ctx_id := Some 7, gss_clnt_gssd_flags := {GSSD_LUCID_CONTEXT},
                 gss_clnt_token := [5, 6], gss_clnt_handle := [9],
                 gss_clnt_svcname := Some [110, 102, 115, 64, 115]\<rparr>)"
    by (simp add: ctx_init_complete_def Let_def ex_init_env_def htonl_bytes_def
        nfs_gss_seqbits_size_def nfsm_rndup_def ex_new_ctx_def ctx_zero_def)
  have run: "nfs_gss_clnt_ctx_init ex_constants ex_init_env ex_neg_mount ex_req ex_new_ctx =
     Some ((None,
            ex_new_ctx\<lparr>gss_clnt_flags := {GSS_CTX_COMPLETE},
                       gss_clnt_thread := None, gss_clnt_proc := RPCSEC_GSS_DATA,
                       gss_clnt_service := RPCSEC_GSS_SVC_INTEGRITY,
                       gss_clnt_seqnum := 1000, gss_clnt_seqwin := 4, gss_clnt_seqbits := [0],
                       gss_clnt_ctx_id := Some 7, gss_clnt_gssd_flags := {GSSD_LUCID_CONTEXT},
                       gss_clnt_token := [5, 6], gss_clnt_handle := [9],
                       gss_clnt_svcname := Some [110, 102, 115, 64, 115]\<rparr>,
            False),
           ex_neg_mount\<lparr>nm_etype := ex_etype\<lparr>et_selected := 0\<rparr>\<rparr>,
           [UPCALL 0 [18, 17, 16] GSS_S_COMPLETE, CALLSERVER GSS_S_COMPLETE])"
    using s
    by (simp add: nfs_gss_clnt_ctx_init_def ex_loop_ok c ctx_init_out_def Let_def)
  have new: "GSS_CTX_COMPLETE \<notin> gss_clnt_flags ex_new_ctx"
    by (simp add: ex_new_ctx_def ctx_zero_def)
  from ctx_init_complete_after_both_and_verifier [OF run new] run show ?thesis
    by (auto simp add: ex_loop_ok)
qed

subsection \<open>A negotiation that uses up the encryption types\<close>





lemma is_upcall_simps [simp]:
  "is_upcall (UPCALL r es m) = True" "is_upcall (CALLSERVER m) = False"
  by (simp_all add: is_upcall_def)


lemma same_but_selected_refl [simp]: "same_but_selected nmp nmp"
  by (simp add: same_but_selected_def)

lemma same_but_selected_upd [simp]:
  "same_but_selected nmp (nmp\<lparr>nm_etype := (nm_etype nmp)\<lparr>et_selected := i\<rparr>\<rparr>)"
  by (simp add: same_but_selected_def)
















section \<open>Properties of the registry\<close>

lemma move_to_front_same:
  "x \<in> set l \<Longrightarrow> set (x # remove1 x l) = set l \<and> length (x # remove1 x l) = length l"
  by (induction l) auto

text \<open>
  Claim C6. When the walk of \<open>nfs_gss_clnt_ctx_find_principal\<close> stops at a context
  whose principal is the requested one (or none was requested), that is marked
  \<open>GSS_CTX_INVAL\<close>, and whose negative cache time is 0 or not older than
  \<open>GSS_NEG_CACHE_TO\<close>, the lookup returns \<open>NFSERR_EAUTH\<close>. It does not get as far as
  a context setup, whatever the outside would have answered, and the list of the
  mount has the contexts it had, with the one found at the head.
\<close>

theorem find_principal_negative_cache_fast_fail:
  assumes found: "List.find (\<lambda>c. GSS_CTX_DESTROY \<notin> gss_clnt_flags c \<and>
                      nfs_gss_clnt_ctx_cred_match (gss_clnt_cred c) (r_cred req))
                    (nm_gsscl nmp) = Some cp"
    and princ: "\<not> ctx_principal_differs cp princ"
    and inval: "GSS_CTX_INVAL \<in> gss_clnt_flags cp"
    and fresh: "gss_clnt_nctime cp = 0 \<or> gss_clnt_nctime cp + GSS_NEG_CACHE_TO k \<ge> now"
  shows "nfs_gss_clnt_ctx_find_principal k now fe nmp req princ =
           Some (Inr \<lparr>fr_error = Some NFSERR_EAUTH,
                      fr_mount = nmp\<lparr>nm_gsscl := cp # remove1 cp (nm_gsscl nmp)\<rparr>,
                      fr_req = req, fr_setup = None\<rparr>) \<and>
         set (cp # remove1 cp (nm_gsscl nmp)) = set (nm_gsscl nmp) \<and>
         length (cp # remove1 cp (nm_gsscl nmp)) = length (nm_gsscl nmp)"
proof -
  have "cp \<in> set (nm_gsscl nmp)"
    using found by (auto simp add: find_Some_iff)
  then have "set (cp # remove1 cp (nm_gsscl nmp)) = set (nm_gsscl nmp) \<and>
         length (cp # remove1 cp (nm_gsscl nmp)) = length (nm_gsscl nmp)"
    by (rule move_to_front_same)
  moreover have "nfs_gss_clnt_ctx_find_principal k now fe nmp req princ =
           Some (Inr \<lparr>fr_error = Some NFSERR_EAUTH,
                      fr_mount = nmp\<lparr>nm_gsscl := cp # remove1 cp (nm_gsscl nmp)\<rparr>,
                      fr_req = req, fr_setup = None\<rparr>)"
    using found princ inval fresh
    by (auto simp add: nfs_gss_clnt_ctx_find_principal_def Let_def)
  ultimately show ?thesis by simp
qed

lemma ex_neg_find:
  "List.find (\<lambda>c. GSS_CTX_DESTROY \<notin> gss_clnt_flags c \<and>
                      nfs_gss_clnt_ctx_cred_match (gss_clnt_cred c) (r_cred ex_req))
                    (nm_gsscl ex_neg_mount) = Some (ex_dead_ctx 3 100 100)"
  by (simp add: ex_neg_mount_def ex_req_def ex_dead_ctx_def ctx_zero_def ex_window_ctx_def
      nfs_gss_clnt_ctx_cred_match_def)

theorem find_principal_negative_cache_fast_fail_witness:
  "nfs_gss_clnt_ctx_find_principal ex_constants 102 ex_find_env ex_neg_mount ex_req None =
     Some (Inr \<lparr>fr_error = Some NFSERR_EAUTH,
                fr_mount = ex_neg_mount\<lparr>nm_gsscl := rev (nm_gsscl ex_neg_mount)\<rparr>,
                fr_req = ex_req, fr_setup = None\<rparr>)"
proof -
  have p: "\<not> ctx_principal_differs (ex_dead_ctx 3 100 100) None"
    by (simp add: ctx_principal_differs_def)
  have i: "GSS_CTX_INVAL \<in> gss_clnt_flags (ex_dead_ctx 3 100 100)"
    by (simp add: ex_dead_ctx_def)
  have f: "gss_clnt_nctime (ex_dead_ctx 3 100 100) = 0 \<or>
      gss_clnt_nctime (ex_dead_ctx 3 100 100) + GSS_NEG_CACHE_TO ex_constants \<ge> 102"
    by (simp add: ex_dead_ctx_def ex_constants_def)
  have r: "ex_dead_ctx 3 100 100 # remove1 (ex_dead_ctx 3 100 100) (nm_gsscl ex_neg_mount) =
      rev (nm_gsscl ex_neg_mount)"
    by (simp add: ex_neg_mount_def ex_dead_ctx_def ctx_zero_def ex_window_ctx_def)
  show ?thesis
    using find_principal_negative_cache_fast_fail [OF ex_neg_find p i f, of ex_find_env] r
    by simp
qed

text \<open>
  The reap never lowers the count, and it keeps every context that is sticky, or
  valid, or referred to, or younger than \<open>GSS_NEG_CACHE_TO\<close>.
\<close>

lemma neg_cache_reap_loop_count:
  "n \<le> snd (neg_cache_reap_loop k now n l)"
proof (induction l arbitrary: n)
  case Nil
  then show ?case by simp
next
  case (Cons cp l)
  have a: "n \<le> snd (neg_cache_reap_loop k now n l)" by (rule Cons.IH)
  have b: "n + 1 \<le> snd (neg_cache_reap_loop k now (n + 1) l)" by (rule Cons.IH)
  show ?case using a b by (auto split: prod.splits)
qed

lemma neg_cache_reap_count_never_falls:
  "nm_ncentries nmp \<le> nm_ncentries (nfs_gss_clnt_ctx_neg_cache_reap k now nmp)"
  using neg_cache_reap_loop_count [of "nm_ncentries nmp" k now "nm_gsscl nmp"]
  by (auto simp add: nfs_gss_clnt_ctx_neg_cache_reap_def split: prod.splits)

lemma neg_cache_reap_loop_keeps:
  "neg_cache_reap_loop k now n l = (l', n') \<Longrightarrow> cp \<in> set l \<Longrightarrow>
   GSS_CTX_STICKY \<in> gss_clnt_flags cp \<or> GSS_CTX_INVAL \<notin> gss_clnt_flags cp \<or>
     gss_clnt_refcnt cp \<noteq> 0 \<or> gss_clnt_nctime cp + GSS_NEG_CACHE_TO k \<ge> now \<Longrightarrow>
   cp \<in> set l'"
proof (induction l arbitrary: n l' n')
  case Nil
  then show ?case by simp
next
  case (Cons c l)
  show ?case
  proof (cases "cp = c")
    case True
    with Cons.prems(1,3) show ?thesis
      by (auto split: prod.splits if_splits)
  next
    case False
    with Cons.prems have in_l: "cp \<in> set l" by simp
    have ih: "\<And>m l1 m1. neg_cache_reap_loop k now m l = (l1, m1) \<Longrightarrow> cp \<in> set l1"
      using Cons.IH in_l Cons.prems(3) by blast
    from Cons.prems(1) in_l ih show ?thesis
      by (auto split: prod.splits if_splits)
  qed
qed

lemma neg_cache_reap_keeps_protected:
  "cp \<in> set (nm_gsscl nmp) \<Longrightarrow>
   GSS_CTX_STICKY \<in> gss_clnt_flags cp \<or> GSS_CTX_INVAL \<notin> gss_clnt_flags cp \<or>
     gss_clnt_refcnt cp \<noteq> 0 \<or> gss_clnt_nctime cp + GSS_NEG_CACHE_TO k \<ge> now \<Longrightarrow>
   cp \<in> set (nm_gsscl (nfs_gss_clnt_ctx_neg_cache_reap k now nmp))"
  using neg_cache_reap_loop_keeps [of k now "nm_ncentries nmp" "nm_gsscl nmp" _ _ cp]
  by (auto simp add: nfs_gss_clnt_ctx_neg_cache_reap_def split: prod.splits)

lemma neg_cache_reap_loop_all_reaped:
  "\<forall>cp \<in> set l. GSS_CTX_STICKY \<notin> gss_clnt_flags cp \<and> GSS_CTX_INVAL \<in> gss_clnt_flags cp \<and>
      gss_clnt_refcnt cp = 0 \<and> gss_clnt_nctime cp + GSS_NEG_CACHE_TO k < now \<Longrightarrow>
   GSS_MAX_NEG_CACHE_ENTRIES k < n \<Longrightarrow>
   neg_cache_reap_loop k now n l = ([], n + int (length l))"
  by (induction l arbitrary: n) auto

text \<open>
  Claim C7 asks that a reap which starts with more negative cache entries than the
  ceiling ends with at most the ceiling. \<open>nfs_gss_clnt_ctx_neg_cache_reap\<close> adds one
  to \<open>nm_ncentries\<close> for every context it removes, where the other places that
  take a negative cache entry off the list subtract one. On a mount with 17
  invalid contexts that nobody refers to and that are older than
  \<open>GSS_NEG_CACHE_TO\<close>, and a ceiling of 16, the reap removes all 17 contexts and
  leaves a count of 34.
\<close>

theorem neg_cache_reap_count_goes_up:
  "nfs_gss_clnt_ctx_neg_cache_reap ex_constants 1000 ex_reap_mount =
     ex_reap_mount\<lparr>nm_gsscl := [], nm_ncentries := 34\<rparr>"
proof -
  have "neg_cache_reap_loop ex_constants 1000 17 (map (\<lambda>a. ex_dead_ctx a (int a) 10) [1..<18]) =
          ([], 17 + int (length (map (\<lambda>a. ex_dead_ctx a (int a) 10) [1..<18])))"
    by (rule neg_cache_reap_loop_all_reaped)
       (simp_all add: ex_dead_ctx_def ctx_zero_def ex_constants_def)
  then show ?thesis
    by (simp add: nfs_gss_clnt_ctx_neg_cache_reap_def ex_reap_mount_def)
qed

section \<open>Properties of the verifier check\<close>

text \<open>
  Claim C10. A reply whose verifier has the flavor \<open>RPCSEC_GSS\<close> and is longer than
  \<open>KRB5_MAX_MIC_SIZE\<close> (128 bytes) is rejected with \<open>EBADRPC\<close>, whether the context
  of the request is complete or not: no MIC is checked, nothing is read from the
  chain, and the context is left as it was, so no verifier is stashed.
\<close>

theorem verf_get_rejects_long_verifier:
  assumes "verflen > KRB5_MAX_MIC_SIZE"
  shows "nfs_gss_clnt_verf_get ve (Some cp) seqlist chain RPCSEC_GSS verflen =
           \<lparr>vr_error = Some EBADRPC, vr_ctx = Some cp, vr_accepted = 0,
            vr_chain = chain, vr_mic_checks = []\<rparr>"
  using assms by (simp add: nfs_gss_clnt_verf_get_def)

theorem verf_get_rejects_long_verifier_witness:
  "nfs_gss_clnt_verf_get ex_verf_env (Some ex_window_ctx) [1000] (replicate 136 0) RPCSEC_GSS 129 =
     \<lparr>vr_error = Some EBADRPC, vr_ctx = Some ex_window_ctx, vr_accepted = 0,
      vr_chain = replicate 136 0, vr_mic_checks = []\<rparr> \<and>
   nfs_gss_clnt_verf_get ex_verf_env (Some (ex_window_ctx\<lparr>gss_clnt_flags := {}\<rparr>)) []
       (replicate 136 0) RPCSEC_GSS 129 =
     \<lparr>vr_error = Some EBADRPC, vr_ctx = Some (ex_window_ctx\<lparr>gss_clnt_flags := {}\<rparr>),
      vr_accepted = 0, vr_chain = replicate 136 0, vr_mic_checks = []\<rparr>"
proof -
  have h: "(129::nat) > KRB5_MAX_MIC_SIZE" by (simp add: KRB5_MAX_MIC_SIZE_def)
  show ?thesis
    using verf_get_rejects_long_verifier [OF h, of ex_verf_env ex_window_ctx "[1000]" "replicate 136 0"]
      verf_get_rejects_long_verifier [OF h, of ex_verf_env "ex_window_ctx\<lparr>gss_clnt_flags := {}\<rparr>"
        "[]" "replicate 136 0"]
    by simp
qed

section \<open>Properties of the retries of a context setup\<close>

lemma retry_timeo_Suc:
  "retry_timeo t (Suc i) = retry_timeo (if t * 2 > 60 then 60 else t * 2) i"
  by simp

lemma retry_timeo_map_Suc:
  "t # map (retry_timeo (if t * 2 > 60 then 60 else t * 2)) [0..<n] =
   map (retry_timeo t) [0..<Suc n]"
proof -
  have "map (retry_timeo t) [0..<Suc n] = retry_timeo t 0 # map (retry_timeo t) (map Suc [0..<n])"
    by (simp only: map_Suc_upt upt_conv_Cons [of 0 "Suc n"]) simp
  also have "\<dots> = t # map (retry_timeo (if t * 2 > 60 then 60 else t * 2)) [0..<n]"
    by (simp add: comp_def)
  finally show ?thesis by simp
qed

lemma ctx_init_retry_loop_delays:
  "ctx_init_retry_loop k nmp req r t cp as = Some (e, cp', nmp', ts) \<Longrightarrow>
   ts = map (retry_timeo t) [0..<length ts]"
proof (induction as arbitrary: nmp r t cp e cp' nmp' ts)
  case Nil
  then show ?case by simp
next
  case (Cons a as)
  show ?case
  proof (cases "nfs_gss_clnt_ctx_init k (ra_env a) nmp req cp")
    case None
    with Cons.prems show ?thesis by simp
  next
    case (Some res)
    obtain e1 cp1 w1 nmp1 evs1 where res: "res = ((e1, cp1, w1), nmp1, evs1)"
      by (cases res) auto
    note i = Some [unfolded res]
    show ?thesis
    proof (cases "e1 = Some ENEEDAUTH")
      case False
      with Cons.prems i show ?thesis by simp
    next
      case True
      note need = this
      show ?thesis
      proof (cases "ctx_init_retry_wait (ra_now a + t) (ra_now a) (ra_ticks a)")
        case None
        with Cons.prems i need show ?thesis by simp
      next
        case (Some wt)
        note wsome = this
        show ?thesis
        proof (cases wt)
          case (Some err)
          with Cons.prems i need wsome show ?thesis by auto
        next
          case None
          note wn = wsome None
          show ?thesis
          proof (cases "(nm_soft nmp1 \<or> r_soft req) \<and> r + 1 > nm_retry nmp1")
            case True
            with Cons.prems i need wn show ?thesis by auto
          next
            case False
            with Cons.prems i need wn obtain ts' where
              rec: "ctx_init_retry_loop k nmp1 req (r + 1) (if t * 2 > 60 then 60 else t * 2) cp1 as =
                      Some (e, cp', nmp', ts')" and ts: "ts = t # ts'"
              by (auto split: if_splits)
            from Cons.IH [OF rec]
            have "ts' = map (retry_timeo (if t * 2 > 60 then 60 else t * 2)) [0..<length ts']" .
            then have "t # ts' = map (retry_timeo t) [0..<Suc (length ts')]"
              using retry_timeo_map_Suc [of t "length ts'"] by simp
            with ts show ?thesis by simp
          qed
        qed
      qed
    qed
  qed
qed

lemma retry_timeo_closed:
  "0 < t \<Longrightarrow> t \<le> 60 \<Longrightarrow> retry_timeo t i = min (t * 2 ^ i) 60"
proof (induction i arbitrary: t)
  case 0
  then show ?case by simp
next
  case (Suc i)
  have p: "(1::int) \<le> 2 ^ i" by simp
  show ?case
  proof (cases "t * 2 > 60")
    case True
    have "60 * 1 \<le> (60::int) * 2 ^ i" using p by (rule mult_left_mono) simp
    then have a: "min ((60::int) * 2 ^ i) 60 = 60" by simp
    have "(t * 2) * 1 \<le> (t * 2) * 2 ^ i" using p by (rule mult_left_mono) (use Suc.prems in simp)
    then have "t * 2 \<le> t * 2 ^ Suc i" by (simp only: mult.assoc mult_1_right power_Suc)
    with True have "60 < t * 2 ^ Suc i" by linarith
    then have b: "min (t * 2 ^ Suc i) 60 = 60" by simp
    have "retry_timeo t (Suc i) = retry_timeo 60 i" using True by simp
    also have "\<dots> = min (60 * 2 ^ i) 60" by (rule Suc.IH) simp_all
    finally show ?thesis using a b by simp
  next
    case False
    then have "retry_timeo t (Suc i) = retry_timeo (t * 2) i" by simp
    also have "\<dots> = min ((t * 2) * 2 ^ i) 60"
      by (rule Suc.IH) (use Suc.prems False in simp_all)
    finally show ?thesis by (simp add: mult.assoc)
  qed
qed

text \<open>
  The setup does not ask for another try on its own account: the errors of the upcall
  are \<open>ENXIO\<close>, \<open>EACCES\<close>, \<open>ENOMEM\<close> and \<open>NFSERR_EAUTH\<close>, an \<open>ENEEDAUTH\<close> of the null call
  restarts the negotiation inside the loop, and what follows the loop returns
  \<open>NFSERR_EAUTH\<close> or the minor status of the MIC check.
\<close>

lemma gssd_upcall_pre_proc:
  "gssd_upcall_pre nmp cp r = (e, cp1) \<Longrightarrow>
     (e = None \<or> e = Some ENXIO \<or> e = Some EACCES) \<and>
     (gss_clnt_proc cp1 = gss_clnt_proc cp \<or> gss_clnt_proc cp1 = RPCSEC_GSS_INIT)"
  by (auto simp add: gssd_upcall_pre_def Let_def split: if_splits)

lemma gssd_upcall_post_error:
  "gssd_upcall_post nmp cp r g = (Some e, cp2, nmp2, ev) \<Longrightarrow> e = NFSERR_EAUTH \<or> e = ENOMEM"
  by (auto simp add: gssd_upcall_post_def gssd_upcall_out_def Let_def
      split: if_splits lucid_result.splits option.splits)

lemma ctx_init_round_needauth:
  assumes pr: "gss_clnt_proc cp = RPCSEC_GSS_INIT \<or> gss_clnt_proc cp = RPCSEC_GSS_CONTINUE_INIT"
  shows "case ctx_init_round k nmp cp r cc sc g s of
     Exit e c n ev \<Rightarrow> e \<noteq> Some ENEEDAUTH
   | Again c r' cc' sc' n ev \<Rightarrow>
       gss_clnt_proc c = RPCSEC_GSS_INIT \<or> gss_clnt_proc c = RPCSEC_GSS_CONTINUE_INIT"
proof -
  obtain e2 cp2 nmp2 ev2 where u: "gssd_upcall_post nmp cp r g = (e2, cp2, nmp2, ev2)"
    by (cases "gssd_upcall_post nmp cp r g") auto
  note uf = gssd_upcall_post_flags [OF u]
  show ?thesis
  proof (cases e2)
    case (Some e)
    with u gssd_upcall_post_error [OF u [unfolded Some]] show ?thesis
      by (auto simp add: ctx_init_round_def)
  next
    case None
    obtain e3 cp3 ev3 where c: "nfs_gss_clnt_ctx_callserver k nmp2 cp2 s = (e3, cp3, ev3)"
      by (cases "nfs_gss_clnt_ctx_callserver k nmp2 cp2 s") auto
    note cf = callserver_flags [OF c]
    from uf cf pr have p3: "gss_clnt_proc cp3 = RPCSEC_GSS_INIT \<or>
        gss_clnt_proc cp3 = RPCSEC_GSS_CONTINUE_INIT" by simp
    from uf pr have p2: "gss_clnt_proc cp2 = RPCSEC_GSS_INIT \<or>
        gss_clnt_proc cp2 = RPCSEC_GSS_CONTINUE_INIT" by simp
    show ?thesis
    proof (cases e3)
      case (Some e)
      with u None c p2 p3 show ?thesis
        by (auto simp add: ctx_init_round_def Let_def gssd_restart_def)
    next
      case None3: None
      from u None c None3 p2 p3 show ?thesis
        by (auto simp add: ctx_init_round_def Let_def gssd_restart_def)
    qed
  qed
qed

lemma ctx_init_loop_not_needauth:
  "ctx_init_loop k nmp cp r cc sc script = Some (e, cp', nmp', evs) \<Longrightarrow>
   gss_clnt_proc cp = RPCSEC_GSS_INIT \<or> gss_clnt_proc cp = RPCSEC_GSS_CONTINUE_INIT \<Longrightarrow>
   e \<noteq> Some ENEEDAUTH"
proof (induction script arbitrary: nmp cp r cc sc evs)
  case Nil
  obtain e1 cp1 where p: "gssd_upcall_pre nmp cp r = (e1, cp1)"
    by (cases "gssd_upcall_pre nmp cp r")
  with Nil gssd_upcall_pre_proc [OF p] show ?case by (auto split: option.splits)
next
  case (Cons gs rest)
  obtain g s where gs: "gs = (g, s)" by (cases gs)
  obtain e1 cp1 where p: "gssd_upcall_pre nmp cp r = (e1, cp1)"
    by (cases "gssd_upcall_pre nmp cp r")
  note pp = gssd_upcall_pre_proc [OF p]
  from pp Cons.prems(2) have p1: "gss_clnt_proc cp1 = RPCSEC_GSS_INIT \<or>
      gss_clnt_proc cp1 = RPCSEC_GSS_CONTINUE_INIT" by auto
  show ?case
  proof (cases e1)
    case (Some err)
    with Cons.prems gs p pp show ?thesis by auto
  next
    case None
    note e1 = this
    note rn = ctx_init_round_needauth [OF p1, where k = k and nmp = nmp and r = r and cc = cc
          and sc = sc and g = g and s = s]
    show ?thesis
    proof (cases "ctx_init_round k nmp cp1 r cc sc g s")
      case (Exit e' c n ev)
      with Cons.prems gs p e1 have "e' = e" by auto
      with Exit rn show ?thesis by simp
    next
      case (Again c r' cc' sc' n ev)
      with Cons.prems gs p e1 have
        "add_events ev (ctx_init_loop k n c r' cc' sc' rest) = Some (e, cp', nmp', evs)"
        by simp
      from add_events_Some [OF this] obtain t where
        rec: "ctx_init_loop k n c r' cc' sc' rest = Some (e, cp', nmp', t)" by blast
      from Again rn have "gss_clnt_proc c = RPCSEC_GSS_INIT \<or>
        gss_clnt_proc c = RPCSEC_GSS_CONTINUE_INIT" by simp
      from Cons.IH [OF rec this] show ?thesis .
    qed
  qed
qed

lemma ctx_init_out_error: "fst (ctx_init_out e cp) = e"
  by (simp add: ctx_init_out_def Let_def)

lemma ctx_init_complete_needauth:
  "ctx_init_complete env cp = (Some ENEEDAUTH, cp') \<Longrightarrow>
     ie_verify_mic env (gss_clnt_ctx_id cp) (htonl_bytes (gss_clnt_seqwin cp))
       (case gss_clnt_verf cp of None \<Rightarrow> [] | Some v \<Rightarrow> v) = (GSS_S_COMPLETE, 81)"
  by (auto simp add: ctx_init_complete_def Let_def errno_of_int_needauth prod_eq_iff
      split: if_splits)

lemma ctx_init_needauth_only_minor:
  assumes run: "nfs_gss_clnt_ctx_init k env nmp req cp = Some ((Some ENEEDAUTH, cp', w), nmp', evs)"
  shows "\<exists>cpl. ctx_init_loop k nmp (ctx_init_start env req cp) 0 False False (ie_script env) =
                 Some (None, cpl, nmp', evs) \<and>
               ie_verify_mic env (gss_clnt_ctx_id cpl) (htonl_bytes (gss_clnt_seqwin cpl))
                 (case gss_clnt_verf cpl of None \<Rightarrow> [] | Some v \<Rightarrow> v) = (GSS_S_COMPLETE, 81)"
proof (cases "gss_clnt_svcname cp = None \<and> ie_svcname env = None")
  case True
  with run have "fst (ctx_init_out (Some NFSERR_EAUTH) (cp\<lparr>gss_clnt_svcname := None\<rparr>)) =
      Some ENEEDAUTH"
    by (auto simp add: nfs_gss_clnt_ctx_init_def)
  then show ?thesis by (simp add: ctx_init_out_error)
next
  case False
  then have svc: "\<not> (gss_clnt_svcname cp = None \<and> ie_svcname env = None)" .
  have start: "gss_clnt_proc (ctx_init_start env req cp) = RPCSEC_GSS_INIT"
    by (simp add: ctx_init_start_def)
  from run svc obtain el cpl nl where
    loop: "ctx_init_loop k nmp (ctx_init_start env req cp) 0 False False (ie_script env) =
      Some (el, cpl, nl, evs)"
    by (auto simp add: nfs_gss_clnt_ctx_init_def split: if_splits option.splits prod.splits)
  from ctx_init_loop_not_needauth [OF loop] start have ne: "el \<noteq> Some ENEEDAUTH" by simp
  show ?thesis
  proof (cases el)
    case (Some err)
    with run svc loop have "fst (ctx_init_out (Some err) cpl) = Some ENEEDAUTH"
      by (auto simp add: nfs_gss_clnt_ctx_init_def split: if_splits)
    with ne Some show ?thesis by (simp add: ctx_init_out_error)
  next
    case None
    obtain ec cpc where c: "ctx_init_complete env cpl = (ec, cpc)"
      by (cases "ctx_init_complete env cpl")
    with run svc loop None have o: "fst (ctx_init_out ec cpc) = Some ENEEDAUTH" and n: "nl = nmp'"
      by (auto simp add: nfs_gss_clnt_ctx_init_def split: if_splits)
    then have "ec = Some ENEEDAUTH" by (simp add: ctx_init_out_error)
    from ctx_init_complete_needauth [OF c [unfolded this]] loop None n show ?thesis by simp
  qed
qed

lemma init_retry_failure_not_retried:
  assumes ng: "\<not> nm_gone nmp"
    and run: "nfs_gss_clnt_ctx_init k (ra_env a) nmp req cp = Some ((e, cp1, w), nmp1, evs)"
    and ne: "e \<noteq> Some ENEEDAUTH"
  shows "nfs_gss_clnt_ctx_init_retry k nmp req cp (a # as) =
           (if e = None then Some (None, cp1, nmp1, False, [])
            else Some (e, fst (ctx_init_retry_bad cp1), nmp1, snd (ctx_init_retry_bad cp1), []))"
  using ng run ne
  by (cases e) (simp_all add: nfs_gss_clnt_ctx_init_retry_def split: prod.splits)

lemma init_retry_needs_minor81:
  assumes run: "nfs_gss_clnt_ctx_init_retry k nmp req cp (a # as) = Some (e, cp', nmp', w, t # ts)"
  shows "\<exists>c m v. ie_verify_mic (ra_env a) c m v = (GSS_S_COMPLETE, 81)"
proof -
  from run have ng: "\<not> nm_gone nmp"
    by (auto simp add: nfs_gss_clnt_ctx_init_retry_def split: if_splits prod.splits)
  show ?thesis
  proof (cases "nfs_gss_clnt_ctx_init k (ra_env a) nmp req cp")
    case None
    with run ng show ?thesis by (simp add: nfs_gss_clnt_ctx_init_retry_def)
  next
    case (Some res)
    obtain e1 cp1 w1 nmp1 evs1 where res: "res = ((e1, cp1, w1), nmp1, evs1)"
      by (cases res) auto
    note i = Some [unfolded res]
    show ?thesis
    proof (cases "e1 = Some ENEEDAUTH")
      case True
      from ctx_init_needauth_only_minor [OF i [unfolded True]] show ?thesis by blast
    next
      case False
      from init_retry_failure_not_retried [OF ng i False, of as] run show ?thesis
        by (simp split: if_splits)
    qed
  qed
qed

lemma ex_neg_mount_flags:
  "nm_soft ex_neg_mount = False" "nm_retry ex_neg_mount = 2" "r_soft ex_req = False"
  by (simp_all add: ex_neg_mount_def ex_req_def)

lemma ex_init_gssd_down:
  "nfs_gss_clnt_ctx_init ex_constants ex_init_env_gssd_down ex_neg_mount ex_req ex_new_ctx =
     Some ((Some NFSERR_EAUTH,
            ex_new_ctx\<lparr>gss_clnt_flags := {GSS_CTX_INVAL}, gss_clnt_thread := None,
                       gss_clnt_proc := RPCSEC_GSS_INIT,
                       gss_clnt_service := RPCSEC_GSS_SVC_INTEGRITY,
                       gss_clnt_svcname := Some [110, 102, 115, 64, 115]\<rparr>,
            False),
           ex_neg_mount, [])"
proof -
  have s: "gss_clnt_svcname ex_new_ctx = None" "ie_svcname ex_init_env_gssd_down \<noteq> None"
    by (simp_all add: ex_new_ctx_def ctx_zero_def ex_init_env_gssd_down_def ex_init_env_def)
  have l: "ctx_init_loop ex_constants ex_neg_mount
       (ctx_init_start ex_init_env_gssd_down ex_req ex_new_ctx) 0 False False
       (ie_script ex_init_env_gssd_down) =
     Some (Some NFSERR_EAUTH,
           ex_new_ctx\<lparr>gss_clnt_proc := RPCSEC_GSS_INIT,
                      gss_clnt_service := RPCSEC_GSS_SVC_INTEGRITY,
                      gss_clnt_svcname := Some [110, 102, 115, 64, 115]\<rparr>,
           ex_neg_mount, [])"
    by (simp add: ex_init_env_gssd_down_def ex_init_env_def ex_mount_etype ex_negotiation_defs
        Let_def)
  show ?thesis
    using s
    by (simp add: nfs_gss_clnt_ctx_init_def l ctx_init_out_def Let_def)
       (simp add: ex_new_ctx_def ctx_zero_def)
qed

lemma upt_Suc_0_3: "[Suc 0..<3] = [Suc 0, 2]"
  by code_simp

lemma ex_loop_complete:
  assumes g: "nm_gone nmp = False"
    and et: "nm_etype nmp = ex_etype \<or> nm_etype nmp = ex_etype\<lparr>et_selected := 0\<rparr>"
    and cp: "cp = ex_new_ctx \<or> cp = ex_complete_ctx"
    and sc: "ie_script env = [(ex_gssd_complete, ex_server_complete)]"
    and sv: "ie_svcname env = Some [110, 102, 115, 64, 115]"
  shows "ctx_init_loop ex_constants nmp (ctx_init_start env ex_req cp) 0 False False (ie_script env) =
     Some (None,
           ex_complete_ctx\<lparr>gss_clnt_flags := gss_clnt_flags cp, gss_clnt_proc := RPCSEC_GSS_INIT,
                           gss_clnt_seqnum := gss_clnt_seqnum cp,
                           gss_clnt_seqbits := gss_clnt_seqbits cp,
                           gss_clnt_verf := Some [0, 0, 0, 4]\<rparr>,
           nmp\<lparr>nm_etype := ex_etype\<lparr>et_selected := 0\<rparr>\<rparr>,
           [UPCALL 0 [18, 17, 16] GSS_S_COMPLETE, CALLSERVER GSS_S_COMPLETE])"
  using et cp
  by (auto simp add: sc sv g ex_negotiation_defs upt_Suc_0_3 ex_complete_ctx_def Let_def)

lemma ex_complete_fields:
  "gss_clnt_svcname ex_new_ctx = None" "gss_clnt_svcname ex_complete_ctx \<noteq> None"
  "gss_clnt_flags ex_new_ctx = {}" "gss_clnt_flags ex_complete_ctx = {GSS_CTX_COMPLETE}"
  "gss_clnt_seqnum ex_new_ctx = 0" "gss_clnt_seqnum ex_complete_ctx = 1000"
  "gss_clnt_seqbits ex_new_ctx = []" "gss_clnt_seqbits ex_complete_ctx = [0]"
  "gss_clnt_thread ex_new_ctx = Some 1" "gss_clnt_thread ex_complete_ctx = Some 1"
  by (simp_all add: ex_complete_ctx_def ex_new_ctx_def ctx_zero_def)

lemma ex_complete_after:
  assumes cp: "cp = ex_new_ctx \<or> cp = ex_complete_ctx"
    and v: "ie_verify_mic env = (\<lambda>h msg mic. if mic = msg then (GSS_S_COMPLETE, m) else (393216, 0))"
    and r: "ie_random env = 996" and a: "ie_alloc_ok env"
  shows "ctx_init_complete env
     (ex_complete_ctx\<lparr>gss_clnt_flags := gss_clnt_flags cp, gss_clnt_proc := RPCSEC_GSS_INIT,
                           gss_clnt_seqnum := gss_clnt_seqnum cp,
                           gss_clnt_seqbits := gss_clnt_seqbits cp,
                           gss_clnt_verf := Some [0, 0, 0, 4]\<rparr>) =
     (errno_of_int m, ex_complete_ctx)"
  using cp
  by (auto simp add: ctx_init_complete_def Let_def v r a htonl_bytes_def
        nfs_gss_seqbits_size_def nfsm_rndup_def ex_complete_ctx_def ex_new_ctx_def ctx_zero_def)

lemma ex_init_env_minor81_neq: "ex_init_env_minor81 \<noteq> ex_init_env"
proof
  assume "ex_init_env_minor81 = ex_init_env"
  then have "ie_verify_mic ex_init_env_minor81 None [] [] = ie_verify_mic ex_init_env None [] []"
    by simp
  then show False by (simp add: ex_init_env_minor81_def ex_init_env_def)
qed

lemma ex_init_complete:
  assumes g: "nm_gone nmp = False"
    and et: "nm_etype nmp = ex_etype \<or> nm_etype nmp = ex_etype\<lparr>et_selected := 0\<rparr>"
    and cp: "cp = ex_new_ctx \<or> cp = ex_complete_ctx"
    and env: "env = ex_init_env \<or> env = ex_init_env_minor81"
  shows "nfs_gss_clnt_ctx_init ex_constants env nmp ex_req cp =
     Some ((if env = ex_init_env then (None, ex_complete_ctx\<lparr>gss_clnt_thread := None\<rparr>, False)
            else (Some ENEEDAUTH, ex_complete_ctx, False)),
           nmp\<lparr>nm_etype := ex_etype\<lparr>et_selected := 0\<rparr>\<rparr>,
           [UPCALL 0 [18, 17, 16] GSS_S_COMPLETE, CALLSERVER GSS_S_COMPLETE])"
proof -
  have sc: "ie_script env = [(ex_gssd_complete, ex_server_complete)]"
    and sv: "ie_svcname env = Some [110, 102, 115, 64, 115]"
    and r: "ie_random env = 996" and a: "ie_alloc_ok env"
    using env by (auto simp add: ex_init_env_def ex_init_env_minor81_def)
  note ne = ex_init_env_minor81_neq
  have v: "ie_verify_mic env = (\<lambda>h msg mic. if mic = msg
      then (GSS_S_COMPLETE, if env = ex_init_env then 0 else 81) else (393216, 0))"
    using env ne by (auto simp add: ex_init_env_def ex_init_env_minor81_def)
  note l = ex_loop_complete [OF g et cp sc sv]
  note c = ex_complete_after [OF cp v r a]
  have svc: "gss_clnt_svcname (if gss_clnt_svcname cp = None
       then cp\<lparr>gss_clnt_svcname := ie_svcname env\<rparr> else cp) \<noteq> None"
    using cp sv by (auto simp add: ex_complete_fields)
  show ?thesis
    using svc env ne
    by (auto simp add: nfs_gss_clnt_ctx_init_def l c ctx_init_out_def Let_def
        ex_complete_fields)
qed

lemma ex_attempt_fields:
  "ra_env ex_attempt_gssd_down = ex_init_env_gssd_down"
  "ra_env ex_attempt_ok = ex_init_env"
  "ra_env ex_attempt_needauth = ex_init_env_minor81"
  "ra_now ex_attempt_needauth = 500"
  "ra_ticks ex_attempt_needauth = [(None, 530), (None, 560), (None, 590)]"
  "NFS_TRYLATERDEL ex_constants = 4"
  by (simp_all add: ex_attempt_gssd_down_def ex_attempt_ok_def ex_attempt_needauth_def
      ex_constants_def)

text \<open>
  Claim C9. The claim has a failure of the context setup that is transient retried
  by the outer loop, after a delay that grows. \<open>nfs_gss_clnt_ctx_init_retry\<close> does not
  do that: on a hard mount with a retry limit of 2, a request whose first setup fails
  because gssd is not there for the moment gets \<open>NFSERR_EAUTH\<close> at once, with the
  context marked invalid, no wait and no second call of the setup, although the
  second attempt is there and, tried alone, succeeds.
\<close>

theorem init_retry_gssd_down_not_retried:
  "nfs_gss_clnt_ctx_init_retry ex_constants ex_neg_mount ex_req ex_new_ctx
       [ex_attempt_gssd_down, ex_attempt_ok] =
     Some (Some NFSERR_EAUTH,
           ex_new_ctx\<lparr>gss_clnt_flags := {GSS_CTX_INVAL}, gss_clnt_thread := None,
                      gss_clnt_proc := RPCSEC_GSS_INIT,
                      gss_clnt_service := RPCSEC_GSS_SVC_INTEGRITY,
                      gss_clnt_svcname := Some [110, 102, 115, 64, 115]\<rparr>,
           ex_neg_mount, False, []) \<and>
   nfs_gss_clnt_ctx_init_retry ex_constants ex_neg_mount ex_req ex_new_ctx [ex_attempt_ok] =
     Some (None, ex_complete_ctx\<lparr>gss_clnt_thread := None\<rparr>,
           ex_neg_mount\<lparr>nm_etype := ex_etype\<lparr>et_selected := 0\<rparr>\<rparr>, False, [])"
  by (simp add: nfs_gss_clnt_ctx_init_retry_def ex_neg_mount_flags ex_attempt_fields
      ex_init_gssd_down ex_init_complete ex_mount_etype ctx_init_retry_bad_def)

text \<open>
  The loop goes round only when the setup returns \<open>ENEEDAUTH\<close>, which takes a provider
  whose MIC check reports success with the minor status 81. Then the waits are 4, 8,
  16, 32 and 60 seconds; a soft mount with a retry limit of 2 gives up with
  \<open>ETIMEDOUT\<close> after the third wait, and a hard mount goes on until the setup
  returns something else.
\<close>

lemma init_retry_needauth_soft_gives_up:
  "nfs_gss_clnt_ctx_init_retry ex_constants (ex_neg_mount\<lparr>nm_soft := True\<rparr>) ex_req ex_new_ctx
       [ex_attempt_needauth, ex_attempt_needauth, ex_attempt_needauth, ex_attempt_needauth,
        ex_attempt_needauth, ex_attempt_ok] =
     Some (Some ETIMEDOUT,
           ex_complete_ctx\<lparr>gss_clnt_flags := {GSS_CTX_INVAL, GSS_CTX_COMPLETE},
                           gss_clnt_thread := None\<rparr>,
           ex_neg_mount\<lparr>nm_soft := True, nm_etype := ex_etype\<lparr>et_selected := 0\<rparr>\<rparr>,
           False, [4, 8, 16]) \<and>
   nfs_gss_clnt_ctx_init_retry ex_constants ex_neg_mount ex_req ex_new_ctx
       [ex_attempt_needauth, ex_attempt_needauth, ex_attempt_needauth, ex_attempt_needauth,
        ex_attempt_needauth, ex_attempt_ok] =
     Some (None, ex_complete_ctx\<lparr>gss_clnt_thread := None\<rparr>,
           ex_neg_mount\<lparr>nm_etype := ex_etype\<lparr>et_selected := 0\<rparr>\<rparr>,
           False, [4, 8, 16, 32, 60])"
  by (simp add: nfs_gss_clnt_ctx_init_retry_def ex_neg_mount_flags ex_attempt_fields
      ex_init_complete ex_init_env_minor81_neq ex_mount_etype ctx_init_retry_bad_def
      ex_complete_fields)

section \<open>Properties of the integrity and privacy framing\<close>

lemma chain_bytes_simps [simp]:
  "chain_bytes [] = []" "chain_bytes (m # ms) = m_bytes m @ chain_bytes ms"
  "chain_bytes (xs @ ys) = chain_bytes xs @ chain_bytes ys"
  by (simp_all add: chain_bytes_def)

lemma mchain_length_simps [simp]:
  "nfs_gss_mchain_length [] = 0"
  "nfs_gss_mchain_length (m # ms) = mbuf_len m + nfs_gss_mchain_length ms"
  "nfs_gss_mchain_length (xs @ ys) = nfs_gss_mchain_length xs + nfs_gss_mchain_length ys"
  by (simp_all add: nfs_gss_mchain_length_def)

lemma length_chain_bytes: "length (chain_bytes c) = nfs_gss_mchain_length c"
  by (induction c) (simp_all add: mbuf_len_def)

lemma chain_bytes_empty: "nfs_gss_mchain_length c = 0 \<Longrightarrow> chain_bytes c = []"
  using length_chain_bytes [of c] by simp

lemma length_htonl_bytes [simp]: "length (htonl_bytes w) = 4"
  by (simp add: htonl_bytes_def)

lemma mbuf_adj_0 [simp]: "mbuf_adj c 0 = c"
  by (cases c) simp_all

lemma chain_bytes_adj: "chain_bytes (mbuf_adj c n) = drop n (chain_bytes c)"
proof (induction c arbitrary: n)
  case Nil
  then show ?case by simp
next
  case (Cons m ms)
  show ?case
  proof (cases "n = 0")
    case True
    then show ?thesis by simp
  next
    case False
    then show ?thesis using Cons.IH [of "n - mbuf_len m"] by (simp add: mbuf_len_def)
  qed
qed

lemma mbuf_adj_append:
  "n \<le> nfs_gss_mchain_length xs \<Longrightarrow> mbuf_adj (xs @ ys) n = mbuf_adj xs n @ ys"
proof (induction xs arbitrary: n)
  case Nil
  then show ?case by simp
next
  case (Cons m ms)
  show ?case
  proof (cases "n = 0")
    case True
    then show ?thesis by simp
  next
    case False
    then show ?thesis using Cons.prems Cons.IH [of "n - mbuf_len m"] by simp
  qed
qed

lemma length_adj:
  "nfs_gss_mchain_length (mbuf_adj c n) = nfs_gss_mchain_length c - n"
  using length_chain_bytes [of "mbuf_adj c n"] length_chain_bytes [of c]
  by (simp add: chain_bytes_adj)

lemma chain_bytes_dropWhile:
  "chain_bytes (dropWhile (\<lambda>m. mbuf_len m = 0) c) = chain_bytes c"
  by (induction c) (simp_all add: mbuf_len_def)

lemma dropWhile_empty_append:
  "0 < nfs_gss_mchain_length xs \<Longrightarrow>
   dropWhile (\<lambda>m. mbuf_len m = 0) (xs @ ys) = dropWhile (\<lambda>m. mbuf_len m = 0) xs @ ys"
  by (induction xs) auto

lemma dropWhile_empty_all:
  "nfs_gss_mchain_length xs = 0 \<Longrightarrow>
   dropWhile (\<lambda>m. mbuf_len m = 0) (xs @ ys) = dropWhile (\<lambda>m. mbuf_len m = 0) ys"
  by (induction xs) simp_all

lemma length_dropWhile:
  "nfs_gss_mchain_length (dropWhile (\<lambda>m. mbuf_len m = 0) c) = nfs_gss_mchain_length c"
  by (induction c) simp_all

lemma chain_bytes_prepend: "chain_bytes (mbuf_prepend c bs) = bs @ chain_bytes c"
  by (cases c) (simp_all add: mbuf_prepend_def)

lemma integ_restore_walk_0 [simp]: "integ_restore_walk c 0 = Inr []"
  by (cases c) simp_all

lemma integ_restore_walk_exact:
  "\<exists>kept. integ_restore_walk (xs @ ys) (nfs_gss_mchain_length xs) = Inr kept \<and>
          chain_bytes kept = chain_bytes xs \<and>
          (0 < nfs_gss_mchain_length xs \<longrightarrow> kept \<noteq> [])"
proof (induction xs)
  case Nil
  then show ?case by simp
next
  case (Cons m ms)
  show ?case
  proof (cases "mbuf_len m + nfs_gss_mchain_length ms = 0")
    case True
    then show ?thesis by (simp add: chain_bytes_empty mbuf_len_def)
  next
    case False
    with Cons.IH show ?thesis by auto
  qed
qed

text \<open>
  With the integrity framing, arguments that hold at least one byte come back as
  they were, byte for byte, whatever the mbufs they are in, when the provider
  computes the MIC.
\<close>

lemma integ_round_trip_nonempty:
  assumes ne: "0 < nfs_gss_mchain_length c"
    and mic: "fst (gc_get_mic gc (htonl_bytes seqnum @ chain_bytes c)) = GSS_S_COMPLETE"
  shows "\<exists>c' c''. rpc_gss_integ_data_create gc c seqnum =
                     (None, c', Some (nfs_gss_mchain_length c)) \<and>
                   rpc_gss_integ_data_restore c' (nfs_gss_mchain_length c) = (None, c'') \<and>
                   chain_bytes c'' = chain_bytes c"
proof -
  define L where "L = nfs_gss_mchain_length c"
  obtain mj mn m where g: "gc_get_mic gc (htonl_bytes seqnum @ chain_bytes c) = (mj, mn, m)"
    by (cases "gc_get_mic gc (htonl_bytes seqnum @ chain_bytes c)") auto
  with mic have mj: "mj = GSS_S_COMPLETE" by simp
  define micbuf where "micbuf =
    \<lparr>m_lead = 0, m_bytes = htonl_bytes (of_nat (length m)) @ m @ xdrpad (length m)\<rparr>"
  define hdr where "hdr =
    \<lparr>m_lead = 60, m_bytes = htonl_bytes (of_nat (L + 4)) @ htonl_bytes seqnum\<rparr>"
  have tk: "take (L + 4) (htonl_bytes seqnum @ chain_bytes c) = htonl_bytes seqnum @ chain_bytes c"
    by (simp add: L_def length_chain_bytes)
  have cr: "rpc_gss_integ_data_create gc c seqnum = (None, hdr # c @ [micbuf], Some L)"
    using g mj tk
    by (simp add: rpc_gss_integ_data_create_def rpc_gss_data_create_def Let_def L_def [symmetric]
        rpc_gss_prepend_32_def mbuf_prepend_def hdr_def micbuf_def)
  have adj: "mbuf_adj (hdr # c @ [micbuf]) 8 = hdr\<lparr>m_bytes := []\<rparr> # c @ [micbuf]"
    by (simp add: hdr_def mbuf_len_def)
  have dw: "dropWhile (\<lambda>m. mbuf_len m = 0) (hdr\<lparr>m_bytes := []\<rparr> # c @ [micbuf]) =
      dropWhile (\<lambda>m. mbuf_len m = 0) c @ [micbuf]"
    using ne dropWhile_empty_append [of c "[micbuf]"] by (simp add: mbuf_len_def)
  define c1 where "c1 = dropWhile (\<lambda>m. mbuf_len m = 0) c"
  have l1: "nfs_gss_mchain_length c1 = L" by (simp add: c1_def length_dropWhile L_def)
  from integ_restore_walk_exact [of c1 "[micbuf]"] obtain kept where
    w: "integ_restore_walk (c1 @ [micbuf]) L = Inr kept" and
    kb: "chain_bytes kept = chain_bytes c1" and kn: "kept \<noteq> []"
    using ne l1 by (auto simp add: L_def)
  have "rpc_gss_integ_data_restore (hdr # c @ [micbuf]) L =
      (case integ_restore_walk (c1 @ [micbuf]) L of
         Inl e \<Rightarrow> (Some e, c1 @ [micbuf])
       | Inr kept \<Rightarrow> if kept \<noteq> [] then (None, kept) else (None, c1 @ [micbuf]))"
    by (simp only: rpc_gss_integ_data_restore_def adj dw c1_def Let_def)
  then have "rpc_gss_integ_data_restore (hdr # c @ [micbuf]) L = (None, kept)"
    using w kn by simp
  moreover have "chain_bytes kept = chain_bytes c"
    using kb by (simp add: c1_def chain_bytes_dropWhile)
  ultimately show ?thesis using cr by (auto simp add: L_def)
qed

text \<open>
  With the integrity framing, arguments without a byte do not come back: the loop of
  \<open>rpc_gss_integ_data_restore\<close> that looks for the end of the arguments does not run
  for the length 0, \<open>tail\<close> stays \<open>NULL\<close>, and the chain is not cut; what is left is the
  mbuf of the MIC.
\<close>

lemma integ_empty_keeps_mic:
  assumes e: "nfs_gss_mchain_length c = 0"
    and mic: "gc_get_mic gc (htonl_bytes seqnum) = (GSS_S_COMPLETE, mn, m)"
  shows "\<exists>c'. rpc_gss_integ_data_create gc c seqnum = (None, c', Some 0) \<and>
              rpc_gss_integ_data_restore c' 0 =
                (None, [\<lparr>m_lead = 0,
                          m_bytes = htonl_bytes (of_nat (length m)) @ m @ xdrpad (length m)\<rparr>])"
proof -
  define micbuf where "micbuf =
    \<lparr>m_lead = 0, m_bytes = htonl_bytes (of_nat (length m)) @ m @ xdrpad (length m)\<rparr>"
  define hdr where "hdr =
    \<lparr>m_lead = 60, m_bytes = htonl_bytes (of_nat 4) @ htonl_bytes seqnum\<rparr>"
  have cb: "chain_bytes c = []" using e by (rule chain_bytes_empty)
  have cr: "rpc_gss_integ_data_create gc c seqnum = (None, hdr # c @ [micbuf], Some 0)"
    using mic e cb
    by (simp add: rpc_gss_integ_data_create_def rpc_gss_data_create_def Let_def
        rpc_gss_prepend_32_def mbuf_prepend_def hdr_def micbuf_def)
  have adj: "mbuf_adj (hdr # c @ [micbuf]) 8 = hdr\<lparr>m_bytes := []\<rparr> # c @ [micbuf]"
    by (simp add: hdr_def mbuf_len_def)
  have ml: "mbuf_len micbuf \<noteq> 0" by (simp add: micbuf_def mbuf_len_def)
  have dw: "dropWhile (\<lambda>m. mbuf_len m = 0) (hdr\<lparr>m_bytes := []\<rparr> # c @ [micbuf]) = [micbuf]"
    using e ml dropWhile_empty_all [of c "[micbuf]"] by (simp add: mbuf_len_def)
  have "rpc_gss_integ_data_restore (hdr # c @ [micbuf]) 0 =
      (case integ_restore_walk [micbuf] 0 of
         Inl e \<Rightarrow> (Some e, [micbuf])
       | Inr kept \<Rightarrow> if kept \<noteq> [] then (None, kept) else (None, [micbuf]))"
    by (simp only: rpc_gss_integ_data_restore_def adj dw Let_def)
  then have "rpc_gss_integ_data_restore (hdr # c @ [micbuf]) 0 = (None, [micbuf])"
    by simp
  with cr show ?thesis by (auto simp add: micbuf_def)
qed

lemma priv_restore_walk_exact:
  "l0 + nfs_gss_mchain_length xs = len \<Longrightarrow>
   \<exists>kept rest. priv_restore_walk (xs @ [p]) l0 len = (kept, len, rest) \<and>
     chain_bytes kept = chain_bytes xs \<and> rest \<noteq> [] \<and> (l0 < len \<longrightarrow> kept \<noteq> [])"
proof (induction xs arbitrary: l0)
  case Nil
  then show ?case by simp
next
  case (Cons m ms)
  show ?case
  proof (cases "l0 < len")
    case True
    from Cons.prems have "(l0 + mbuf_len m) + nfs_gss_mchain_length ms = len" by simp
    from Cons.IH [OF this] True show ?thesis by auto
  next
    case False
    with Cons.prems have "mbuf_len m + nfs_gss_mchain_length ms = 0" "l0 = len" by simp_all
    then show ?thesis by (simp add: chain_bytes_empty mbuf_len_def)
  qed
qed

lemma nfsm_pad_0 [simp]: "nfsm_pad 0 = 0"
  by (simp add: nfsm_pad_def nfsm_rndup_def)

text \<open>
  With the privacy framing, the arguments come back as they were, byte for byte, for
  every length, when the provider wraps the sequence number and the arguments into a
  token and unwraps that token into the same bytes.
\<close>

lemma priv_round_trip:
  assumes wrap: "gc_wrap gc (htonl_bytes seqnum @ chain_bytes c) = (GSS_S_COMPLETE, mn, tok)"
    and unwrap: "gc_unwrap gc (chain_bytes tok) = (GSS_S_COMPLETE, mn', plain)"
    and inv: "chain_bytes plain = htonl_bytes seqnum @ chain_bytes c"
  shows "\<exists>c' c''. rpc_gss_priv_data_create gc c seqnum =
                     (None, c', Some (nfs_gss_mchain_length tok)) \<and>
                   rpc_gss_priv_data_restore gc c' (nfs_gss_mchain_length tok) = (None, c'') \<and>
                   chain_bytes c'' = chain_bytes c"
proof -
  define L where "L = nfs_gss_mchain_length tok"
  define P where "P = rpc_gss_prepend_32 tok (of_nat L)"
  define A where "A = mbuf_adj P 4"
  have pb: "chain_bytes P = htonl_bytes (of_nat L) @ chain_bytes tok"
    by (simp add: P_def rpc_gss_prepend_32_def chain_bytes_prepend)
  have pl: "nfs_gss_mchain_length P = 4 + L"
    using length_chain_bytes [of P] length_chain_bytes [of tok] by (simp add: pb L_def)
  have ab: "chain_bytes A = chain_bytes tok" by (simp add: A_def chain_bytes_adj pb)
  have al: "nfs_gss_mchain_length A = L" by (simp add: A_def length_adj pl)
  have tk: "take (nfs_gss_mchain_length (rpc_gss_data_create c seqnum))
              (chain_bytes (rpc_gss_data_create c seqnum)) = htonl_bytes seqnum @ chain_bytes c"
    using length_chain_bytes [of "rpc_gss_data_create c seqnum"]
    by (simp add: rpc_gss_data_create_def)
  have tl: "take L (chain_bytes tok) = chain_bytes tok"
    by (simp add: L_def length_chain_bytes)
  have fin: "chain_bytes (dropWhile (\<lambda>m. mbuf_len m = 0) (mbuf_adj plain 4)) = chain_bytes c"
    by (simp add: chain_bytes_dropWhile chain_bytes_adj inv)
  show ?thesis
  proof (cases "nfsm_pad L = 0")
    case True
    have cr: "rpc_gss_priv_data_create gc c seqnum = (None, P, Some L)"
      using wrap True
      by (simp add: rpc_gss_priv_data_create_def Let_def tk L_def [symmetric] P_def)
    have "rpc_gss_priv_data_restore gc P L =
        (None, dropWhile (\<lambda>m. mbuf_len m = 0) (mbuf_adj plain 4))"
      using True unwrap
      by (simp add: rpc_gss_priv_data_restore_def Let_def A_def [symmetric] ab tl)
    with cr fin show ?thesis by (auto simp add: L_def)
  next
    case False
    define padbuf where "padbuf = \<lparr>m_lead = 0, m_bytes = replicate (nfsm_pad L) 0\<rparr>"
    have L0: "0 < L" using False by (cases "L = 0") simp_all
    have cr: "rpc_gss_priv_data_create gc c seqnum = (None, P @ [padbuf], Some L)"
      using wrap False
      by (simp add: rpc_gss_priv_data_create_def Let_def tk L_def [symmetric] P_def padbuf_def)
    have adj: "mbuf_adj (P @ [padbuf]) 4 = A @ [padbuf]"
      by (simp add: A_def mbuf_adj_append pl)
    from priv_restore_walk_exact [of 0 A L padbuf] al L0 obtain kept rest where
      w: "priv_restore_walk (A @ [padbuf]) 0 L = (kept, L, rest)" and
      kb: "chain_bytes kept = chain_bytes A" and rn: "rest \<noteq> []" and kn: "kept \<noteq> []"
      by auto
    have "rpc_gss_priv_data_restore gc (P @ [padbuf]) L =
        (None, dropWhile (\<lambda>m. mbuf_len m = 0) (mbuf_adj plain 4))"
      using False unwrap w rn kn
      by (simp add: rpc_gss_priv_data_restore_def Let_def adj kb ab tl)
    with cr fin show ?thesis by (auto simp add: L_def)
  qed
qed

text \<open>
  Claim C3. The claim has the call body come back from the decoding as it went into
  the encoding, for a body of length 0 as for any other. With the integrity framing
  it does not: the arguments of a null procedure, one mbuf without data, are framed
  with the sequence number 7 and a MIC of five bytes, \<open>*len\<close> is 0, and
  \<open>rpc_gss_integ_data_restore\<close> with that length returns 0 and leaves the twelve bytes
  of the MIC (its length, the MIC, the padding) where the arguments should be.
\<close>

theorem integ_restore_empty_args_keeps_mic:
  "rpc_gss_integ_data_create ex_crypto ex_args_0 7 =
     (None,
      [\<lparr>m_lead = 60, m_bytes = [0, 0, 0, 4, 0, 0, 0, 7]\<rparr>,
       \<lparr>m_lead = 0, m_bytes = []\<rparr>,
       \<lparr>m_lead = 0, m_bytes = [0, 0, 0, 5, 170, 187, 204, 221, 4, 0, 0, 0]\<rparr>],
      Some 0) \<and>
   rpc_gss_integ_data_restore
      [\<lparr>m_lead = 60, m_bytes = [0, 0, 0, 4, 0, 0, 0, 7]\<rparr>,
       \<lparr>m_lead = 0, m_bytes = []\<rparr>,
       \<lparr>m_lead = 0, m_bytes = [0, 0, 0, 5, 170, 187, 204, 221, 4, 0, 0, 0]\<rparr>] 0 =
     (None, [\<lparr>m_lead = 0, m_bytes = [0, 0, 0, 5, 170, 187, 204, 221, 4, 0, 0, 0]\<rparr>]) \<and>
   chain_bytes ex_args_0 = [] \<and>
   chain_bytes [\<lparr>m_lead = 0, m_bytes = [0, 0, 0, 5, 170, 187, 204, 221, 4, 0, 0, 0]\<rparr>] =
     [0, 0, 0, 5, 170, 187, 204, 221, 4, 0, 0, 0]"
proof -
  have a: "rpc_gss_integ_data_create ex_crypto ex_args_0 7 =
     (None,
      [\<lparr>m_lead = 60, m_bytes = [0, 0, 0, 4, 0, 0, 0, 7]\<rparr>,
       \<lparr>m_lead = 0, m_bytes = []\<rparr>,
       \<lparr>m_lead = 0, m_bytes = [0, 0, 0, 5, 170, 187, 204, 221, 4, 0, 0, 0]\<rparr>],
      Some 0)"
    by code_simp
  have b: "rpc_gss_integ_data_restore
      [\<lparr>m_lead = 60, m_bytes = [0, 0, 0, 4, 0, 0, 0, 7]\<rparr>,
       \<lparr>m_lead = 0, m_bytes = []\<rparr>,
       \<lparr>m_lead = 0, m_bytes = [0, 0, 0, 5, 170, 187, 204, 221, 4, 0, 0, 0]\<rparr>] 0 =
     (None, [\<lparr>m_lead = 0, m_bytes = [0, 0, 0, 5, 170, 187, 204, 221, 4, 0, 0, 0]\<rparr>])"
    by code_simp
  have c: "chain_bytes ex_args_0 = []" by (simp add: ex_args_0_def)
  from a b c show ?thesis by simp
qed

text \<open>
  The round trip on the other examples: one byte with the integrity framing, and
  no byte and thirteen bytes (a token of 19 bytes, one byte of padding) with the
  privacy framing.
\<close>

lemma round_trip_examples:
  "rpc_gss_integ_data_create ex_crypto ex_args_1 7 =
     (None,
      [\<lparr>m_lead = 60, m_bytes = [0, 0, 0, 5, 0, 0, 0, 7]\<rparr>,
       \<lparr>m_lead = 0, m_bytes = [42]\<rparr>,
       \<lparr>m_lead = 0, m_bytes = [0, 0, 0, 5, 170, 187, 204, 221, 5, 0, 0, 0]\<rparr>],
      Some 1)"
  "rpc_gss_integ_data_restore
      [\<lparr>m_lead = 60, m_bytes = [0, 0, 0, 5, 0, 0, 0, 7]\<rparr>,
       \<lparr>m_lead = 0, m_bytes = [42]\<rparr>,
       \<lparr>m_lead = 0, m_bytes = [0, 0, 0, 5, 170, 187, 204, 221, 5, 0, 0, 0]\<rparr>] 1 =
     (None, ex_args_1)"
  "rpc_gss_priv_data_create ex_crypto ex_args_0 7 =
     (None,
      [\<lparr>m_lead = 0, m_bytes = [0, 0, 0, 6]\<rparr>,
       \<lparr>m_lead = 0, m_bytes = [1, 2, 255, 255, 255, 248]\<rparr>,
       \<lparr>m_lead = 0, m_bytes = [0, 0]\<rparr>],
      Some 6)"
  "rpc_gss_priv_data_restore ex_crypto
      [\<lparr>m_lead = 0, m_bytes = [0, 0, 0, 6]\<rparr>,
       \<lparr>m_lead = 0, m_bytes = [1, 2, 255, 255, 255, 248]\<rparr>,
       \<lparr>m_lead = 0, m_bytes = [0, 0]\<rparr>] 6 = (None, [])"
  "rpc_gss_priv_data_create ex_crypto ex_args_13 7 =
     (None,
      [\<lparr>m_lead = 0, m_bytes = [0, 0, 0, 19]\<rparr>,
       \<lparr>m_lead = 0,
          m_bytes = [1, 2, 255, 255, 255, 248, 254, 253, 252, 251, 250, 249, 248, 247,
                     246, 245, 244, 243, 242]\<rparr>,
       \<lparr>m_lead = 0, m_bytes = [0]\<rparr>],
      Some 19)"
  "rpc_gss_priv_data_restore ex_crypto
      [\<lparr>m_lead = 0, m_bytes = [0, 0, 0, 19]\<rparr>,
       \<lparr>m_lead = 0,
          m_bytes = [1, 2, 255, 255, 255, 248, 254, 253, 252, 251, 250, 249, 248, 247,
                     246, 245, 244, 243, 242]\<rparr>,
       \<lparr>m_lead = 0, m_bytes = [0]\<rparr>] 19 =
     (None, [\<lparr>m_lead = 0, m_bytes = [1, 2, 3, 4, 5, 6, 7, 8, 9, 10, 11, 12, 13]\<rparr>])"
  by code_simp+

end
